theory Spec2Isabelle
  imports Complex_Main "HOL-Library.AList" "HOL-Library.Sublist"
begin

section \<open>VibeClaw: skill installer and security gate\<close>

text \<open>
  A shallow embedding of \<^verbatim>\<open>src/skill-installer.ts\<close> (the revision that has
  \<^verbatim>\<open>sanitizeSkillName\<close>) and of \<^verbatim>\<open>checkSecurity\<close> from \<^verbatim>\<open>src/tools.ts\<close>.

  Conventions of the model:
  \<^item> a JavaScript string is a \<open>string\<close>; every \<open>char\<close> stands for one code unit, and
    a code unit outside ASCII (the emoji of the block messages) is written as its UTF-8 bytes;
  \<^item> a JavaScript \<open>number\<close> that is finite is a \<open>real\<close>; turning a number into text
    is left to a parameter \<open>fmt\<close>;
  \<^item> \<^verbatim>\<open>T | null\<close> is \<open>'a option\<close>, an optional field of a result is an \<open>option\<close> too;
  \<^item> the Node library (\<^verbatim>\<open>path\<close>, \<^verbatim>\<open>fetch\<close>, the clock) is a record of parameters, the
    \<open>host\<close>; the file system below the installation root is an explicit tree;
  \<^item> a rejected promise is a value \<open>Inl e\<close>; every file-system and network call is
    appended to a trace.

  The source file also holds an earlier revision of the installer, without the sanitizer
  and with a looser content check. The theory follows the later revision, the one the
  specification describes.
\<close>

subsection \<open>JavaScript string operations\<close>

definition startsWith :: "string \<Rightarrow> string \<Rightarrow> bool" where
  "startsWith s p = (take (length p) s = p)"

text \<open>\<open>find_from p s k\<close>: the first position at which \<open>p\<close> occurs in \<open>s\<close>, counted from \<open>k\<close>.\<close>

fun find_from :: "string \<Rightarrow> string \<Rightarrow> nat \<Rightarrow> nat option" where
  "find_from p [] k = (if p = [] then Some k else None)"
| "find_from p (c # cs) k =
     (if take (length p) (c # cs) = p then Some k else find_from p cs (Suc k))"

text \<open>\<^verbatim>\<open>s.indexOf(p, from)\<close>: the search starts at \<open>min from (length s)\<close>, the result is
  \<open>-1\<close> when there is no occurrence.\<close>

definition indexOf :: "string \<Rightarrow> string \<Rightarrow> nat \<Rightarrow> int" where
  "indexOf s p from =
     (case find_from p (drop from s) (min from (length s)) of
        None \<Rightarrow> - 1
      | Some k \<Rightarrow> int k)"

definition includes_str :: "string \<Rightarrow> string \<Rightarrow> bool" where
  "includes_str s p = (indexOf s p 0 \<noteq> - 1)"

text \<open>\<^verbatim>\<open>xs.join(sep)\<close>\<close>

fun join_with :: "string \<Rightarrow> string list \<Rightarrow> string" where
  "join_with sep [] = []"
| "join_with sep [x] = x"
| "join_with sep (x # y # ys) = x @ sep @ join_with sep (y # ys)"

abbreviation dquote :: string where
  "dquote \<equiv> [CHR 0x22]"

abbreviation newline :: string where
  "newline \<equiv> [CHR 0x0A]"

subsection \<open>The host: Node's path module, the network and the clock\<close>

datatype fetch_outcome =
    Rejected
  | Response bool "string option"

text \<open>
  \<open>Rejected\<close>: \<^verbatim>\<open>fetch\<close> throws. \<open>Response ok body\<close>: \<^verbatim>\<open>response.ok\<close> and the value of
  \<^verbatim>\<open>await response.text()\<close>, \<open>None\<close> when reading the body throws.
\<close>

record host =
  SKILLS_DIR :: string
  path_sep :: string
  path_resolve :: "string \<Rightarrow> string \<Rightarrow> string"
  path_join :: "string \<Rightarrow> string \<Rightarrow> string"
  fetch :: "string \<Rightarrow> fetch_outcome"
  now_iso :: string

subsection \<open>Name sanitizer\<close>

text \<open>The character class \<^verbatim>\<open>[a-zA-Z0-9\-_.]\<close>: the three ranges by character code
  (\<open>a\<close> is 97, \<open>z\<close> 122, \<open>A\<close> 65, \<open>Z\<close> 90, \<open>0\<close> 48, \<open>9\<close> 57) and the three single
  characters.\<close>

definition allowed_char :: "char \<Rightarrow> bool" where
  "allowed_char c =
     (let n = (of_char c :: nat) in
      (97 \<le> n \<and> n \<le> 122) \<or> (65 \<le> n \<and> n \<le> 90) \<or> (48 \<le> n \<and> n \<le> 57)
      \<or> c = CHR ''-'' \<or> c = CHR ''_'' \<or> c = CHR ''.'')"

definition strip_name :: "string \<Rightarrow> string" where
  "strip_name name = filter allowed_char name"

definition sanitizeSkillName :: "host \<Rightarrow> string \<Rightarrow> string option" where
  "sanitizeSkillName h name =
     (let sanitized = strip_name name in
      if sanitized = [] \<or> includes_str sanitized ''..'' \<or> startsWith sanitized ''.'' then None
      else
        let resolved = path_resolve h (SKILLS_DIR h) sanitized in
        if \<not> startsWith resolved (SKILLS_DIR h @ path_sep h) then None
        else Some sanitized)"

subsection \<open>Security gate\<close>

record cisco_scan =
  is_safe :: bool
  max_severity :: string
  findings_count :: real

record VibeResource =
  name :: string
  security_score :: "real option"
  security_flags :: "string list option"
  cisco_scan_result :: "cisco_scan option"

definition blocked_sign :: string where
  "blocked_sign = [CHR 0xE2, CHR 0x9B, CHR 0x94]"

text \<open>\<^verbatim>\<open>skill.security_flags?.length ? `  Flags: ...\n` : ""\<close>\<close>

definition flags_line :: "VibeResource \<Rightarrow> string" where
  "flags_line skill =
     (case security_flags skill of
        None \<Rightarrow> []
      | Some fl \<Rightarrow>
          if fl = [] then [] else ''  Flags: '' @ join_with '', '' fl @ newline)"

definition checkSecurity :: "(real \<Rightarrow> string) \<Rightarrow> VibeResource \<Rightarrow> string option" where
  "checkSecurity fmt skill =
     (case (case cisco_scan_result skill of
              None \<Rightarrow> None
            | Some scan \<Rightarrow> if \<not> is_safe scan then Some scan else None) of
        Some scan \<Rightarrow>
          Some (blocked_sign @ '' BLOCKED: '' @ dquote @ name skill @ dquote
                @ '' failed Vibe Index security scan.'' @ newline @ newline
                @ ''  Severity: '' @ max_severity scan @ newline
                @ ''  Findings: '' @ fmt (findings_count scan) @ '' issue(s) detected'' @ newline
                @ flags_line skill
                @ newline @ ''This skill has known security issues and cannot be installed.'' @ newline
                @ ''See https://vibeindex.ai for details.'')
      | None \<Rightarrow>
          (case security_score skill of
             None \<Rightarrow> None
           | Some score \<Rightarrow>
               if score \<ge> 25 then
                 Some (blocked_sign @ '' BLOCKED: '' @ dquote @ name skill @ dquote
                       @ '' has a high security risk score ('' @ fmt score @ '').'' @ newline @ newline
                       @ flags_line skill
                       @ newline
                       @ ''This skill has been flagged by Vibe Index security scanning and cannot be installed.''
                       @ newline
                       @ ''See https://vibeindex.ai for details.'')
               else None))"

subsection \<open>The file system below the installation root\<close>

text \<open>
  The installer only ever touches \<^verbatim>\<open>SKILLS_DIR/<d>\<close> and \<^verbatim>\<open>SKILLS_DIR/<d>/<f>\<close>, where
  \<open>d\<close> is a single path segment (a sanitized name or a directory entry's name) and \<open>f\<close> is
  \<^verbatim>\<open>SKILL.md\<close> or \<^verbatim>\<open>.vibeclaw.json\<close>. The model keeps that part of the disk: the root is
  missing (\<open>None\<close>) or a directory listing; an entry of the root is a non-directory or a
  directory with its own listing. A listing is an association list; its order is the
  order in which the entries were created, which is one of the orders a real directory may
  be read in, and no statement below depends on it.
  Permissions, symbolic links and partial writes are outside the model: every call is atomic.
\<close>

record install_record =
  installedBy :: string
  installedAt :: string
  source :: string
  record_sourceUrl :: string
  record_skillName :: string

text \<open>What \<^verbatim>\<open>writeFile\<close> puts in a file: the downloaded text, or
  \<^verbatim>\<open>JSON.stringify(meta, null, 2)\<close>, kept as the record it serialises.\<close>

datatype payload = Text string | MetaJson install_record

datatype item = ItemFile payload | ItemDir

datatype entry = EntFile | EntDir "(string \<times> item) list"

type_synonym fsys = "(string \<times> entry) list option"

datatype fs_error = ENOENT | ENOTDIR | EEXIST | EISDIR

datatype io =
    IoFetch string
  | IoAccess string string
  | IoMkdir string
  | IoWriteFile string string payload
  | IoReaddir
  | IoRm string

record world =
  files :: fsys
  trace :: "io list"

definition log_io :: "io \<Rightarrow> world \<Rightarrow> world" where
  "log_io x w = w\<lparr>trace := trace w @ [x]\<rparr>"

definition lookup_dir :: "fsys \<Rightarrow> string \<Rightarrow> (string \<times> item) list option" where
  "lookup_dir fs d =
     (case fs of
        None \<Rightarrow> None
      | Some es \<Rightarrow>
          (case map_of es d of
             Some (EntDir items) \<Rightarrow> Some items
           | _ \<Rightarrow> None))"

text \<open>\<open>exists_in fs d f\<close>: the path \<^verbatim>\<open>SKILLS_DIR/d/f\<close> exists.\<close>

definition exists_in :: "fsys \<Rightarrow> string \<Rightarrow> string \<Rightarrow> bool" where
  "exists_in fs d f =
     (case lookup_dir fs d of
        None \<Rightarrow> False
      | Some items \<Rightarrow> map_of items f \<noteq> None)"

text \<open>\<^verbatim>\<open>fs.mkdir(SKILLS_DIR/d, { recursive: true })\<close>\<close>

definition mkdir_p :: "fsys \<Rightarrow> string \<Rightarrow> fs_error + fsys" where
  "mkdir_p fs d =
     (case fs of
        None \<Rightarrow> Inr (Some [(d, EntDir [])])
      | Some es \<Rightarrow>
          (case map_of es d of
             None \<Rightarrow> Inr (Some (AList.update d (EntDir []) es))
           | Some (EntDir items) \<Rightarrow> Inr (Some es)
           | Some EntFile \<Rightarrow> Inl EEXIST))"

text \<open>\<^verbatim>\<open>fs.writeFile(SKILLS_DIR/d/f, c)\<close>\<close>

definition write_file :: "fsys \<Rightarrow> string \<Rightarrow> string \<Rightarrow> payload \<Rightarrow> fs_error + fsys" where
  "write_file fs d f c =
     (case fs of
        None \<Rightarrow> Inl ENOENT
      | Some es \<Rightarrow>
          (case map_of es d of
             None \<Rightarrow> Inl ENOENT
           | Some EntFile \<Rightarrow> Inl ENOTDIR
           | Some (EntDir items) \<Rightarrow>
               (case map_of items f of
                  Some ItemDir \<Rightarrow> Inl EISDIR
                | _ \<Rightarrow> Inr (Some (AList.update d (EntDir (AList.update f (ItemFile c) items)) es)))))"

text \<open>\<^verbatim>\<open>fs.rm(SKILLS_DIR/d, { recursive: true })\<close>\<close>

definition rm_recursive :: "fsys \<Rightarrow> string \<Rightarrow> fs_error + fsys" where
  "rm_recursive fs d =
     (case fs of
        None \<Rightarrow> Inl ENOENT
      | Some es \<Rightarrow>
          (case map_of es d of
             None \<Rightarrow> Inl ENOENT
           | Some e \<Rightarrow> Inr (Some (AList.delete d es))))"

fun isDirectory :: "entry \<Rightarrow> bool" where
  "isDirectory EntFile = False"
| "isDirectory (EntDir items) = True"

text \<open>\<^verbatim>\<open>fs.readdir(SKILLS_DIR, { withFileTypes: true })\<close>: names with \<^verbatim>\<open>isDirectory()\<close>.\<close>

definition readdir :: "fsys \<Rightarrow> fs_error + (string \<times> bool) list" where
  "readdir fs =
     (case fs of
        None \<Rightarrow> Inl ENOENT
      | Some es \<Rightarrow> Inr (map (\<lambda>(n, e). (n, isDirectory e)) es))"

text \<open>The calls as the program makes them: each one is logged, a failing one changes nothing.
  \<open>fs_access\<close> returns whether the promise resolves.\<close>

definition fs_access :: "string \<Rightarrow> string \<Rightarrow> world \<Rightarrow> bool \<times> world" where
  "fs_access d f w = (exists_in (files w) d f, log_io (IoAccess d f) w)"

definition fs_mkdir :: "string \<Rightarrow> world \<Rightarrow> (fs_error + unit) \<times> world" where
  "fs_mkdir d w =
     (case mkdir_p (files w) d of
        Inl e \<Rightarrow> (Inl e, log_io (IoMkdir d) w)
      | Inr fs' \<Rightarrow> (Inr (), log_io (IoMkdir d) (w\<lparr>files := fs'\<rparr>)))"

definition fs_writeFile :: "string \<Rightarrow> string \<Rightarrow> payload \<Rightarrow> world \<Rightarrow> (fs_error + unit) \<times> world" where
  "fs_writeFile d f c w =
     (case write_file (files w) d f c of
        Inl e \<Rightarrow> (Inl e, log_io (IoWriteFile d f c) w)
      | Inr fs' \<Rightarrow> (Inr (), log_io (IoWriteFile d f c) (w\<lparr>files := fs'\<rparr>)))"

definition fs_rm :: "string \<Rightarrow> world \<Rightarrow> (fs_error + unit) \<times> world" where
  "fs_rm d w =
     (case rm_recursive (files w) d of
        Inl e \<Rightarrow> (Inl e, log_io (IoRm d) w)
      | Inr fs' \<Rightarrow> (Inr (), log_io (IoRm d) (w\<lparr>files := fs'\<rparr>)))"

definition fs_readdir :: "world \<Rightarrow> (fs_error + (string \<times> bool) list) \<times> world" where
  "fs_readdir w = (readdir (files w), log_io IoReaddir w)"

text \<open>A sequence of awaited mutating calls: the first one that throws ends the sequence.\<close>

datatype fs_op = Mkdir string | WriteFile string string payload

fun apply_op :: "fs_op \<Rightarrow> world \<Rightarrow> (fs_error + unit) \<times> world" where
  "apply_op (Mkdir d) w = fs_mkdir d w"
| "apply_op (WriteFile d f c) w = fs_writeFile d f c w"

fun run_awaits :: "fs_op list \<Rightarrow> world \<Rightarrow> (fs_error + unit) \<times> world" where
  "run_awaits [] w = (Inr (), w)"
| "run_awaits (x # xs) w =
     (case apply_op x w of
        (Inl e, w') \<Rightarrow> (Inl e, w')
      | (Inr u, w') \<Rightarrow> run_awaits xs w')"

subsection \<open>Source prober\<close>

definition getSkillMdUrls :: "string \<Rightarrow> string \<Rightarrow> string \<Rightarrow> string list" where
  "getSkillMdUrls owner repo rawName =
     (let base = ''https://raw.githubusercontent.com/'' @ owner @ ''/'' @ repo in
      [ base @ ''/main/skills/'' @ rawName @ ''/SKILL.md'',
        base @ ''/master/skills/'' @ rawName @ ''/SKILL.md'',
        base @ ''/main/SKILL.md'',
        base @ ''/master/SKILL.md'',
        base @ ''/main/src/skills/'' @ rawName @ ''/SKILL.md'',
        base @ ''/master/src/skills/'' @ rawName @ ''/SKILL.md'' ])"

text \<open>The condition under which \<^verbatim>\<open>downloadSkillMd\<close> returns a fetched body:
  \<^verbatim>\<open>content.startsWith("---") && content.indexOf("---", 3) > 3 && content.includes("name:")\<close>\<close>

definition valid_skill_md :: "string \<Rightarrow> bool" where
  "valid_skill_md content =
     (startsWith content ''---'' \<and> indexOf content ''---'' 3 > 3 \<and> includes_str content ''name:'')"

text \<open>The \<^verbatim>\<open>for (const url of urls)\<close> loop with its \<^verbatim>\<open>try/catch\<close>.\<close>

fun probe_urls :: "host \<Rightarrow> string list \<Rightarrow> world \<Rightarrow> (string \<times> string) option \<times> world" where
  "probe_urls h [] w = (None, w)"
| "probe_urls h (url # urls) w =
     (let w' = log_io (IoFetch url) w in
      case fetch h url of
        Rejected \<Rightarrow> probe_urls h urls w'
      | Response ok body \<Rightarrow>
          if ok then
            (case body of
               None \<Rightarrow> probe_urls h urls w'
             | Some content \<Rightarrow>
                 if valid_skill_md content then (Some (content, url), w')
                 else probe_urls h urls w')
          else probe_urls h urls w')"

definition downloadSkillMd ::
  "host \<Rightarrow> string \<Rightarrow> string \<Rightarrow> string \<Rightarrow> world \<Rightarrow> (string \<times> string) option \<times> world" where
  "downloadSkillMd h owner repo rawName w = probe_urls h (getSkillMdUrls owner repo rawName) w"

subsection \<open>Installer\<close>

record InstallResult =
  success :: bool
  skillName :: string
  installPath :: "string option"
  sourceUrl :: "string option"
  error :: "string option"
  alreadyInstalled :: "bool option"

definition invalid_name_error :: "string \<Rightarrow> string" where
  "invalid_name_error rawName =
     ''Invalid skill name '' @ dquote @ rawName @ dquote
     @ ''. Names must be alphanumeric with hyphens/underscores only.''"

definition not_found_error :: "string \<Rightarrow> string \<Rightarrow> string \<Rightarrow> string" where
  "not_found_error owner repo rawName =
     ''Could not find SKILL.md for '' @ dquote @ rawName @ dquote @ '' in '' @ owner @ ''/'' @ repo
     @ ''. Tried multiple paths.''"

definition install_meta :: "host \<Rightarrow> string \<Rightarrow> string \<Rightarrow> string \<Rightarrow> string \<Rightarrow> install_record" where
  "install_meta h owner repo rawName url =
     \<lparr> installedBy = ''vibeclaw'',
       installedAt = now_iso h,
       source = ''github:'' @ owner @ ''/'' @ repo,
       record_sourceUrl = url,
       record_skillName = rawName \<rparr>"

text \<open>The three awaited calls after a successful download, in program order.\<close>

definition install_writes :: "string \<Rightarrow> string \<Rightarrow> install_record \<Rightarrow> fs_op list" where
  "install_writes safeName content meta =
     [ Mkdir safeName,
       WriteFile safeName ''SKILL.md'' (Text content),
       WriteFile safeName ''.vibeclaw.json'' (MetaJson meta) ]"

definition installSkillFromGitHub ::
  "host \<Rightarrow> string \<Rightarrow> string \<Rightarrow> string \<Rightarrow> bool \<Rightarrow> world \<Rightarrow> (fs_error + InstallResult) \<times> world" where
  "installSkillFromGitHub h owner repo rawName force w =
     (case sanitizeSkillName h rawName of
        None \<Rightarrow>
          (Inr \<lparr> success = False, skillName = rawName, installPath = None, sourceUrl = None,
                 error = Some (invalid_name_error rawName), alreadyInstalled = None \<rparr>, w)
      | Some safeName \<Rightarrow>
          (let skillDir = path_join h (SKILLS_DIR h) safeName;
               (present, w1) = fs_access safeName ''SKILL.md'' w
           in
           if present \<and> \<not> force then
             (Inr \<lparr> success = True, skillName = rawName, installPath = Some skillDir,
                    sourceUrl = None, error = None, alreadyInstalled = Some True \<rparr>, w1)
           else
             (case downloadSkillMd h owner repo rawName w1 of
                (None, w2) \<Rightarrow>
                  (Inr \<lparr> success = False, skillName = rawName, installPath = None, sourceUrl = None,
                         error = Some (not_found_error owner repo rawName),
                         alreadyInstalled = None \<rparr>, w2)
              | (Some (content, url), w2) \<Rightarrow>
                  (case run_awaits
                          (install_writes safeName content (install_meta h owner repo rawName url)) w2 of
                     (Inl e, w3) \<Rightarrow> (Inl e, w3)
                   | (Inr u, w3) \<Rightarrow>
                       (Inr \<lparr> success = True, skillName = rawName, installPath = Some skillDir,
                              sourceUrl = Some url, error = None, alreadyInstalled = None \<rparr>, w3)))))"

subsection \<open>Registry: list and uninstall\<close>

fun list_loop :: "(string \<times> bool) list \<Rightarrow> string list \<Rightarrow> world \<Rightarrow> string list \<times> world" where
  "list_loop [] installed w = (installed, w)"
| "list_loop ((n, isdir) # rest) installed w =
     (if isdir then
        (let (ok, w1) = fs_access n ''.vibeclaw.json'' w in
         if ok then list_loop rest (installed @ [n]) w1
         else list_loop rest installed w1)
      else list_loop rest installed w)"

definition listInstalledSkills :: "world \<Rightarrow> string list \<times> world" where
  "listInstalledSkills w =
     (case fs_readdir w of
        (Inl e, w1) \<Rightarrow> ([], w1)
      | (Inr entries, w1) \<Rightarrow> list_loop entries [] w1)"

definition uninstallSkill :: "host \<Rightarrow> string \<Rightarrow> world \<Rightarrow> bool \<times> world" where
  "uninstallSkill h rawName w =
     (case sanitizeSkillName h rawName of
        None \<Rightarrow> (False, w)
      | Some safeName \<Rightarrow>
          (let (ok, w1) = fs_access safeName ''.vibeclaw.json'' w in
           if \<not> ok then (False, w1)
           else
             (case fs_rm safeName w1 of
                (Inl e, w2) \<Rightarrow> (False, w2)
              | (Inr u, w2) \<Rightarrow> (True, w2))))"

subsection \<open>Auxiliary notions for the statements\<close>

text \<open>A candidate URL is accepted when the response is successful, its body can be read
  and the body passes the content check.\<close>

definition accepts :: "host \<Rightarrow> string \<Rightarrow> bool" where
  "accepts h url =
     (case fetch h url of
        Rejected \<Rightarrow> False
      | Response ok body \<Rightarrow>
          ok \<and> (case body of None \<Rightarrow> False | Some content \<Rightarrow> valid_skill_md content))"

text \<open>\<open>occurs_at p s i\<close>: the non-empty text \<open>p\<close> occurs in \<open>s\<close> at index \<open>i\<close>.\<close>

definition occurs_at :: "string \<Rightarrow> string \<Rightarrow> nat \<Rightarrow> bool" where
  "occurs_at p s i = (take (length p) (drop i s) = p)"

text \<open>
  The content rule in the words of the specification: the body starts with the delimiter,
  the delimiter occurs again at some index \<open>i\<close> from 3 on, and \<^verbatim>\<open>name:\<close> lies between the
  two delimiters, that is within the text from index 3 up to \<open>i\<close>.
\<close>

definition spec_valid_skill_md :: "string \<Rightarrow> bool" where
  "spec_valid_skill_md content =
     (occurs_at ''---'' content 0
      \<and> list_ex (\<lambda>i. occurs_at ''---'' content i
                      \<and> sublist ''name:'' (take (i - 3) (drop 3 content)))
          [3..<length content])"

text \<open>
  The installation root as an absolute path, \<^verbatim>\<open>path.resolve(SKILLS_DIR)\<close>: a zero-length
  segment is ignored by \<^verbatim>\<open>path.resolve\<close>.
\<close>

definition abs_root :: "host \<Rightarrow> string" where
  "abs_root h = path_resolve h (SKILLS_DIR h) []"

text \<open>
  In the words of the specification: the resolved path is a strict descendant of the
  installation root. A resolved path is absolute and normalized, with no separator at its
  end, so it lies strictly below the root when it consists of the absolute root, a
  separator and more.
\<close>

definition strict_descendant :: "host \<Rightarrow> string \<Rightarrow> bool" where
  "strict_descendant h p = prefix (abs_root h @ path_sep h) p"

text \<open>
  A host for concrete runs: a POSIX installation root that is absolute, on which
  \<^verbatim>\<open>path.join\<close> and \<^verbatim>\<open>path.resolve\<close> of the root and one plain segment both give
  \<^verbatim>\<open>root/segment\<close>.
\<close>

definition posix_host :: "(string \<Rightarrow> fetch_outcome) \<Rightarrow> host" where
  "posix_host net =
     \<lparr> SKILLS_DIR = ''/home/u/.openclaw/skills'',
       path_sep = ''/'',
       path_resolve = (\<lambda>a b. if b = [] then a else a @ ''/'' @ b),
       path_join = (\<lambda>a b. a @ ''/'' @ b),
       fetch = net,
       now_iso = ''2026-01-01T00:00:00.000Z'' \<rparr>"

text \<open>
  A host whose state directory is given by the environment as the relative path
  \<^verbatim>\<open>state\<close>, the process running in \<^verbatim>\<open>/work\<close>: \<^verbatim>\<open>SKILLS_DIR\<close> is
  \<^verbatim>\<open>path.join("state", "skills")\<close>, and \<^verbatim>\<open>path.resolve\<close> makes a relative path absolute
  from the working directory.
\<close>

definition rel_host :: host where
  "rel_host =
     \<lparr> SKILLS_DIR = ''state/skills'',
       path_sep = ''/'',
       path_resolve = (\<lambda>a b. if b = [] then ''/work/'' @ a else ''/work/'' @ a @ ''/'' @ b),
       path_join = (\<lambda>a b. a @ ''/'' @ b),
       fetch = (\<lambda>url. Rejected),
       now_iso = ''2026-01-01T00:00:00.000Z'' \<rparr>"

text \<open>Sample bodies: a skill descriptor, and an HTML error page served with status 200.\<close>

definition sample_skill_md :: string where
  "sample_skill_md = ''---'' @ newline @ ''name: demo'' @ newline @ ''---'' @ newline @ ''# Demo''"

definition not_found_page :: string where
  "not_found_page = ''<html><body>404: name: not found</body></html>''"

text \<open>A network on which exactly one URL serves a skill descriptor.\<close>

definition net_only :: "string \<Rightarrow> string \<Rightarrow> fetch_outcome" where
  "net_only good url =
     (if url = good then Response True (Some sample_skill_md)
      else Response True (Some not_found_page))"

text \<open>A body with the two delimiters first and the name field only after them.\<close>

definition stray_name_md :: string where
  "stray_name_md = ''---'' @ newline @ ''---'' @ newline @ ''name: x''"

text \<open>A concrete run: the first candidate serves the sample descriptor, the disk is empty.\<close>

definition demo_host :: host where
  "demo_host = posix_host (net_only ''https://raw.githubusercontent.com/o/r/main/skills/demo/SKILL.md'')"

definition demo_record :: install_record where
  "demo_record =
     \<lparr> installedBy = ''vibeclaw'',
       installedAt = ''2026-01-01T00:00:00.000Z'',
       source = ''github:o/r'',
       record_sourceUrl = ''https://raw.githubusercontent.com/o/r/main/skills/demo/SKILL.md'',
       record_skillName = ''demo'' \<rparr>"

definition demo_installed :: fsys where
  "demo_installed =
     Some [(''demo'', EntDir [(''SKILL.md'', ItemFile (Text sample_skill_md)),
                              (''.vibeclaw.json'', ItemFile (MetaJson demo_record))])]"

definition demo_result :: InstallResult where
  "demo_result =
     \<lparr> success = True, skillName = ''demo'',
       installPath = Some ''/home/u/.openclaw/skills/demo'',
       sourceUrl = Some ''https://raw.githubusercontent.com/o/r/main/skills/demo/SKILL.md'',
       error = None, alreadyInstalled = None \<rparr>"

definition demo_after :: world where
  "demo_after =
     \<lparr>files = demo_installed,
      trace = [ IoAccess ''demo'' ''SKILL.md'',
                IoFetch ''https://raw.githubusercontent.com/o/r/main/skills/demo/SKILL.md'',
                IoMkdir ''demo'',
                IoWriteFile ''demo'' ''SKILL.md'' (Text sample_skill_md),
                IoWriteFile ''demo'' ''.vibeclaw.json'' (MetaJson demo_record) ]\<rparr>"

text \<open>The world of that run after the existence test and the successful request.\<close>

definition demo_probed :: world where
  "demo_probed =
     log_io (IoFetch ''https://raw.githubusercontent.com/o/r/main/skills/demo/SKILL.md'')
       (log_io (IoAccess ''demo'' ''SKILL.md'') \<lparr>files = None, trace = []\<rparr>)"

text \<open>A target directory that holds an Install Record but no content file, and the world
  after an install into it.\<close>

definition stale_world :: world where
  "stale_world =
     \<lparr>files = Some [(''demo'', EntDir [(''.vibeclaw.json'', ItemFile (MetaJson demo_record))])],
      trace = []\<rparr>"

definition stale_after :: world where
  "stale_after =
     \<lparr>files = Some [(''demo'', EntDir [(''.vibeclaw.json'', ItemFile (MetaJson demo_record)),
                                      (''SKILL.md'', ItemFile (Text sample_skill_md))])],
      trace = [ IoAccess ''demo'' ''SKILL.md'',
                IoFetch ''https://raw.githubusercontent.com/o/r/main/skills/demo/SKILL.md'',
                IoMkdir ''demo'',
                IoWriteFile ''demo'' ''SKILL.md'' (Text sample_skill_md),
                IoWriteFile ''demo'' ''.vibeclaw.json'' (MetaJson demo_record) ]\<rparr>"

text \<open>A host on which every URL answers with the HTML page, and a disk that holds the
  skill \<^verbatim>\<open>myskill\<close>.\<close>

definition dead_host :: host where
  "dead_host = posix_host (\<lambda>url. Response True (Some not_found_page))"

definition spaced_world :: world where
  "spaced_world =
     \<lparr>files = Some [(''myskill'', EntDir [(''SKILL.md'', ItemFile (Text sample_skill_md))])],
      trace = []\<rparr>"

text \<open>A host on which every URL serves the sample descriptor, and the disk after two
  installs from the empty disk.\<close>

definition open_host :: host where
  "open_host = posix_host (\<lambda>url. Response True (Some sample_skill_md))"

definition two_installed :: world where
  "two_installed =
     snd (installSkillFromGitHub open_host ''o'' ''r'' ''beta'' False
       (snd (installSkillFromGitHub open_host ''o'' ''r'' ''alpha'' False
          \<lparr>files = None, trace = []\<rparr>)))"

text \<open>A directory with content but no record, put beside the installed ones by hand.\<close>

definition with_stray :: world where
  "with_stray =
     two_installed\<lparr>files :=
       map_option (AList.update ''gamma'' (EntDir [(''SKILL.md'', ItemFile (Text ''# by hand''))]))
         (files two_installed)\<rparr>"

section \<open>Properties\<close>

subsection \<open>String operations\<close>

lemma startsWith_prefix: "startsWith s p = prefix p s"
  unfolding startsWith_def
  by (metis append_eq_conv_conj prefix_def)

lemma find_from_None: "find_from p s k = None \<longleftrightarrow> \<not> sublist p s"
proof (induction s arbitrary: k)
  case Nil
  then show ?case by auto
next
  case (Cons c cs)
  have "take (length p) (c # cs) = p \<longleftrightarrow> prefix p (c # cs)"
    by (metis append_eq_conv_conj prefix_def)
  then show ?case using Cons
    by (auto simp: sublist_Cons_right)
qed

lemma includes_str_sublist: "includes_str s p = sublist p s"
  using find_from_None[of p s 0]
  by (auto simp: includes_str_def indexOf_def split: option.splits)

subsection \<open>Security gate\<close>

text \<open>
  C1. The gate blocks (returns a non-empty explanation) exactly when a deep-scan result
  exists and marks the resource unsafe, whatever the score, or when a risk score exists
  and is at least 25; otherwise it returns null. The gate is a pure function of the record.
\<close>

theorem checkSecurity_policy:
  "(checkSecurity fmt skill \<noteq> None) =
     ((\<exists>scan. cisco_scan_result skill = Some scan \<and> \<not> is_safe scan)
      \<or> (\<exists>score. security_score skill = Some score \<and> 25 \<le> score))
   \<and> (\<forall>msg. checkSecurity fmt skill = Some msg \<longrightarrow> msg \<noteq> [])"
  by (auto simp: checkSecurity_def blocked_sign_def split: option.splits if_splits)

theorem checkSecurity_policy_witness:
  "checkSecurity (\<lambda>x. []) \<lparr> name = ''x'', security_score = Some 0, security_flags = None,
       cisco_scan_result = Some \<lparr> is_safe = False, max_severity = ''HIGH'', findings_count = 2 \<rparr> \<rparr> \<noteq> None
   \<and> checkSecurity (\<lambda>x. []) \<lparr> name = ''x'', security_score = Some 25, security_flags = None,
       cisco_scan_result = None \<rparr> \<noteq> None
   \<and> checkSecurity (\<lambda>x. []) \<lparr> name = ''x'', security_score = Some 24, security_flags = None,
       cisco_scan_result = None \<rparr> = None"
  using checkSecurity_policy[of "\<lambda>x. []" "\<lparr> name = ''x'', security_score = Some 0, security_flags = None,
       cisco_scan_result = Some \<lparr> is_safe = False, max_severity = ''HIGH'', findings_count = 2 \<rparr> \<rparr>"]
    checkSecurity_policy[of "\<lambda>x. []" "\<lparr> name = ''x'', security_score = Some 25, security_flags = None,
       cisco_scan_result = None \<rparr>"]
    checkSecurity_policy[of "\<lambda>x. []" "\<lparr> name = ''x'', security_score = Some 24, security_flags = None,
       cisco_scan_result = None \<rparr>"]
  by simp

subsection \<open>Name sanitizer\<close>

lemma strip_keeps_dotdot:
  assumes "sublist ''../'' raw"
  shows "sublist ''..'' (strip_name raw)"
proof -
  from assms obtain ps ss where "raw = ps @ ''../'' @ ss"
    by (auto simp: sublist_def)
  then have "strip_name raw = strip_name ps @ ''..'' @ strip_name ss"
    by (simp add: strip_name_def allowed_char_def)
  then show ?thesis
    by (metis sublist_appendI)
qed

lemma strip_keeps_leading_dot:
  assumes "prefix ''.'' raw"
  shows "prefix ''.'' (strip_name raw)"
proof -
  from assms obtain ss where "raw = ''.'' @ ss"
    by (auto simp: prefix_def)
  then show ?thesis
    by (simp add: strip_name_def allowed_char_def)
qed

lemma sanitize_None_iff:
  "(sanitizeSkillName h raw = None) =
     (strip_name raw = [] \<or> sublist ''..'' (strip_name raw) \<or> prefix ''.'' (strip_name raw)
      \<or> \<not> prefix (SKILLS_DIR h @ path_sep h) (path_resolve h (SKILLS_DIR h) (strip_name raw)))"
  by (simp add: sanitizeSkillName_def Let_def includes_str_sublist startsWith_prefix)

lemma sanitize_Some: "sanitizeSkillName h raw = Some safe \<Longrightarrow> safe = strip_name raw"
  by (simp add: sanitizeSkillName_def Let_def split: if_splits)

lemma lower_codes:
  "(97 \<le> n \<and> n \<le> 122) = ((n::nat) \<in> of_char ` set ''abcdefghijklmnopqrstuvwxyz'')"
  by simp presburger

lemma upper_codes:
  "(65 \<le> n \<and> n \<le> 90) = ((n::nat) \<in> of_char ` set ''ABCDEFGHIJKLMNOPQRSTUVWXYZ'')"
  by simp presburger

lemma digit_codes:
  "(48 \<le> n \<and> n \<le> 57) = ((n::nat) \<in> of_char ` set ''0123456789'')"
  by simp presburger

lemma char_eq_code: "(c = d) = ((of_char c :: nat) = of_char d)"
  by simp

lemma allowed_char_class:
  "allowed_char c =
     (c \<in> set (''abcdefghijklmnopqrstuvwxyz'' @ ''ABCDEFGHIJKLMNOPQRSTUVWXYZ'' @ ''0123456789'' @ ''-_.''))"
proof -
  define n where "n = (of_char c :: nat)"
  have mem: "(c \<in> set xs) = (n \<in> of_char ` set xs)" for xs
    unfolding n_def by (rule inj_image_mem_iff[OF inj_of_char, symmetric])
  have single: "(c = CHR ''-'' \<or> c = CHR ''_'' \<or> c = CHR ''.'') = (c \<in> set ''-_.'')"
    by auto
  have "allowed_char c =
          ((97 \<le> n \<and> n \<le> 122) \<or> (65 \<le> n \<and> n \<le> 90) \<or> (48 \<le> n \<and> n \<le> 57)
           \<or> (c = CHR ''-'' \<or> c = CHR ''_'' \<or> c = CHR ''.''))"
    by (simp add: allowed_char_def n_def Let_def)
  also have "\<dots> = (c \<in> set ''abcdefghijklmnopqrstuvwxyz'' \<or> c \<in> set ''ABCDEFGHIJKLMNOPQRSTUVWXYZ''
                    \<or> c \<in> set ''0123456789'' \<or> c \<in> set ''-_.'')"
    unfolding lower_codes upper_codes digit_codes single mem ..
  finally show ?thesis
    by (simp only: set_append Un_iff)
qed

text \<open>
  What holds of the sanitizer on every host. It keeps exactly the characters \<open>a\<close> to \<open>z\<close>,
  \<open>A\<close> to \<open>Z\<close>, \<open>0\<close> to \<open>9\<close>, hyphen, underscore and dot, and it returns null exactly when the
  stripped name is empty, contains \<^verbatim>\<open>..\<close>, starts with \<^verbatim>\<open>.\<close>, or the resolved path does not
  start with the text of \<^verbatim>\<open>SKILLS_DIR\<close> followed by the separator. When \<^verbatim>\<open>SKILLS_DIR\<close> is
  absolute that last test says that the resolved path is not a strict descendant of the
  root. A raw name that contains \<^verbatim>\<open>../\<close> or starts with \<^verbatim>\<open>.\<close> is rejected, and on rejection
  install returns the invalid-name failure with the world untouched: the same files and an
  unchanged trace, so no file-system and no network call was made.
\<close>

theorem sanitizer_conditions:
  "(sanitizeSkillName h raw = None) =
     (strip_name raw = [] \<or> sublist ''..'' (strip_name raw) \<or> prefix ''.'' (strip_name raw)
      \<or> \<not> prefix (SKILLS_DIR h @ path_sep h) (path_resolve h (SKILLS_DIR h) (strip_name raw)))
   \<and> strip_name raw =
       filter (\<lambda>c. c \<in> set (''abcdefghijklmnopqrstuvwxyz'' @ ''ABCDEFGHIJKLMNOPQRSTUVWXYZ''
                              @ ''0123456789'' @ ''-_.'')) raw
   \<and> (sanitizeSkillName h raw \<noteq> None \<longrightarrow> sanitizeSkillName h raw = Some (strip_name raw))
   \<and> (abs_root h = SKILLS_DIR h \<longrightarrow>
        (sanitizeSkillName h raw = None) =
          (strip_name raw = [] \<or> sublist ''..'' (strip_name raw) \<or> prefix ''.'' (strip_name raw)
           \<or> \<not> strict_descendant h (path_resolve h (SKILLS_DIR h) (strip_name raw))))
   \<and> (sublist ''../'' raw \<or> prefix ''.'' raw \<longrightarrow> sanitizeSkillName h raw = None)
   \<and> (sanitizeSkillName h raw = None \<longrightarrow>
        installSkillFromGitHub h owner repo raw force w =
          (Inr \<lparr> success = False, skillName = raw, installPath = None, sourceUrl = None,
                 error = Some (invalid_name_error raw), alreadyInstalled = None \<rparr>, w))"
proof (intro conjI impI)
  show "(sanitizeSkillName h raw = None) =
     (strip_name raw = [] \<or> sublist ''..'' (strip_name raw) \<or> prefix ''.'' (strip_name raw)
      \<or> \<not> prefix (SKILLS_DIR h @ path_sep h) (path_resolve h (SKILLS_DIR h) (strip_name raw)))"
    by (rule sanitize_None_iff)
  have "allowed_char =
          (\<lambda>c. c \<in> set (''abcdefghijklmnopqrstuvwxyz'' @ ''ABCDEFGHIJKLMNOPQRSTUVWXYZ''
                           @ ''0123456789'' @ ''-_.''))"
    by (rule ext) (rule allowed_char_class)
  then show "strip_name raw =
       filter (\<lambda>c. c \<in> set (''abcdefghijklmnopqrstuvwxyz'' @ ''ABCDEFGHIJKLMNOPQRSTUVWXYZ''
                              @ ''0123456789'' @ ''-_.'')) raw"
    by (simp only: strip_name_def)
  show "sanitizeSkillName h raw = Some (strip_name raw)" if "sanitizeSkillName h raw \<noteq> None"
    using that sanitize_Some by fastforce
  show "(sanitizeSkillName h raw = None) =
          (strip_name raw = [] \<or> sublist ''..'' (strip_name raw) \<or> prefix ''.'' (strip_name raw)
           \<or> \<not> strict_descendant h (path_resolve h (SKILLS_DIR h) (strip_name raw)))"
    if "abs_root h = SKILLS_DIR h"
    using that by (simp only: sanitize_None_iff strict_descendant_def)
  show "sanitizeSkillName h raw = None" if "sublist ''../'' raw \<or> prefix ''.'' raw"
    using that strip_keeps_dotdot strip_keeps_leading_dot sanitize_None_iff by blast
  show "installSkillFromGitHub h owner repo raw force w =
          (Inr \<lparr> success = False, skillName = raw, installPath = None, sourceUrl = None,
                 error = Some (invalid_name_error raw), alreadyInstalled = None \<rparr>, w)"
    if "sanitizeSkillName h raw = None"
    using that by (simp add: installSkillFromGitHub_def)
qed

theorem sanitizer_conditions_witness:
  "sanitizeSkillName (posix_host (\<lambda>u. Rejected)) ''../../etc/passwd'' = None
   \<and> installSkillFromGitHub (posix_host (\<lambda>u. Rejected)) ''o'' ''r'' ''../../etc/passwd'' False
        \<lparr>files = None, trace = []\<rparr> =
       (Inr \<lparr> success = False, skillName = ''../../etc/passwd'', installPath = None, sourceUrl = None,
              error = Some (invalid_name_error ''../../etc/passwd''), alreadyInstalled = None \<rparr>,
        \<lparr>files = None, trace = []\<rparr>)
   \<and> abs_root (posix_host (\<lambda>u. Rejected)) = SKILLS_DIR (posix_host (\<lambda>u. Rejected))
   \<and> strict_descendant (posix_host (\<lambda>u. Rejected)) ''/home/u/.openclaw/skills/ab_c-9.Z''
   \<and> sanitizeSkillName (posix_host (\<lambda>u. Rejected)) ''a/b_c $-9|.Z~'' = Some ''ab_c-9.Z''"
proof -
  let ?h = "posix_host (\<lambda>u. Rejected)"
  note bad = sanitizer_conditions[of ?h "''../../etc/passwd''" "''o''" "''r''" False
        "\<lparr>files = None, trace = []\<rparr>"]
  note good = sanitizer_conditions[of ?h "''a/b_c $-9|.Z~''" "''o''" "''r''" False
        "\<lparr>files = None, trace = []\<rparr>"]
  have a: "sublist ''../'' ''../../etc/passwd''"
    by (simp add: sublist_Cons_right)
  have r: "sanitizeSkillName ?h ''../../etc/passwd'' = None"
    using bad a by blast
  have root: "abs_root ?h = SKILLS_DIR ?h"
    by (simp add: abs_root_def posix_host_def)
  have c: "strip_name ''a/b_c $-9|.Z~'' = ''ab_c-9.Z''"
    using good by simp
  have d: "strict_descendant ?h ''/home/u/.openclaw/skills/ab_c-9.Z''"
    by (simp add: strict_descendant_def abs_root_def posix_host_def)
  have p: "path_resolve ?h (SKILLS_DIR ?h) ''ab_c-9.Z'' = ''/home/u/.openclaw/skills/ab_c-9.Z''"
    by (simp add: posix_host_def)
  have n: "\<not> sublist ''..'' ''ab_c-9.Z''" "\<not> prefix ''.'' ''ab_c-9.Z''"
    by (simp_all add: sublist_Cons_right)
  from good root have "(sanitizeSkillName ?h ''a/b_c $-9|.Z~'' = None) =
          (strip_name ''a/b_c $-9|.Z~'' = [] \<or> sublist ''..'' (strip_name ''a/b_c $-9|.Z~'')
           \<or> prefix ''.'' (strip_name ''a/b_c $-9|.Z~'')
           \<or> \<not> strict_descendant ?h (path_resolve ?h (SKILLS_DIR ?h) (strip_name ''a/b_c $-9|.Z~'')))"
    by blast
  then have b: "sanitizeSkillName ?h ''a/b_c $-9|.Z~'' \<noteq> None"
    unfolding c p using d n by simp
  have g: "sanitizeSkillName ?h ''a/b_c $-9|.Z~'' = Some ''ab_c-9.Z''"
    using good b c by metis
  from r bad root d g show ?thesis
    by blast
qed

lemma rel_host_rejects_all: "sanitizeSkillName rel_host raw = None"
  by (simp add: sanitizeSkillName_def Let_def startsWith_def rel_host_def)

text \<open>
  C2, where the code departs from it. With a relative installation root the resolved path
  is absolute while \<^verbatim>\<open>SKILLS_DIR\<close> is not, so the test of the code fails for every name.
  The name \<^verbatim>\<open>demo\<close> has only characters of the class, no \<^verbatim>\<open>..\<close> and no leading dot, and its
  resolved path is a strict descendant of the root; none of the four conditions of the
  claim holds, and yet the sanitizer returns null and install returns the invalid-name
  failure.
\<close>

theorem sanitizer_rejects_descendant_of_relative_root:
  "strip_name ''demo'' = ''demo''
   \<and> \<not> sublist ''..'' (strip_name ''demo'')
   \<and> \<not> prefix ''.'' (strip_name ''demo'')
   \<and> SKILLS_DIR rel_host = ''state/skills''
   \<and> abs_root rel_host = ''/work/state/skills''
   \<and> path_resolve rel_host (SKILLS_DIR rel_host) (strip_name ''demo'') = ''/work/state/skills/demo''
   \<and> strict_descendant rel_host (path_resolve rel_host (SKILLS_DIR rel_host) (strip_name ''demo''))
   \<and> sanitizeSkillName rel_host ''demo'' = None
   \<and> installSkillFromGitHub rel_host ''o'' ''r'' ''demo'' False \<lparr>files = None, trace = []\<rparr> =
       (Inr \<lparr> success = False, skillName = ''demo'', installPath = None, sourceUrl = None,
              error = Some (invalid_name_error ''demo''), alreadyInstalled = None \<rparr>,
        \<lparr>files = None, trace = []\<rparr>)"
proof -
  have c: "strip_name ''demo'' = ''demo''"
    by (simp add: strip_name_def allowed_char_def)
  have n: "\<not> sublist ''..'' ''demo''" "\<not> prefix ''.'' ''demo''"
    by (simp_all add: sublist_Cons_right)
  have d: "SKILLS_DIR rel_host = ''state/skills''" "abs_root rel_host = ''/work/state/skills''"
    "path_resolve rel_host (SKILLS_DIR rel_host) ''demo'' = ''/work/state/skills/demo''"
    "strict_descendant rel_host ''/work/state/skills/demo''"
    by (simp_all add: strict_descendant_def abs_root_def rel_host_def)
  have r: "sanitizeSkillName rel_host ''demo'' = None"
    by (rule rel_host_rejects_all)
  have i: "installSkillFromGitHub rel_host ''o'' ''r'' ''demo'' False \<lparr>files = None, trace = []\<rparr> =
       (Inr \<lparr> success = False, skillName = ''demo'', installPath = None, sourceUrl = None,
              error = Some (invalid_name_error ''demo''), alreadyInstalled = None \<rparr>,
        \<lparr>files = None, trace = []\<rparr>)"
    by (simp add: installSkillFromGitHub_def r)
  from c n d r i show ?thesis
    by simp
qed

subsection \<open>Source prober\<close>

lemma probe_urls_miss:
  "\<forall>u\<in>set us. \<not> accepts h u \<Longrightarrow>
     probe_urls h us w = (None, w\<lparr>trace := trace w @ map IoFetch us\<rparr>)"
proof (induction us arbitrary: w)
  case Nil
  then show ?case by simp
next
  case (Cons u us)
  then have "\<not> accepts h u" and rest: "\<forall>v\<in>set us. \<not> accepts h v"
    by simp_all
  then have "probe_urls h (u # us) w = probe_urls h us (log_io (IoFetch u) w)"
    by (auto simp: accepts_def Let_def split: fetch_outcome.splits option.splits)
  with Cons.IH[OF rest] show ?case
    by (simp add: log_io_def)
qed

lemma probe_urls_hit:
  assumes "\<forall>v\<in>set pre. \<not> accepts h v"
    and "fetch h u = Response True (Some c)" and "valid_skill_md c"
  shows "probe_urls h (pre @ u # post) w =
           (Some (c, u), w\<lparr>trace := trace w @ map IoFetch (pre @ [u])\<rparr>)"
  using assms(1)
proof (induction pre arbitrary: w)
  case Nil
  then show ?case using assms(2,3) by (simp add: log_io_def)
next
  case (Cons v pre)
  then have "\<not> accepts h v" and rest: "\<forall>x\<in>set pre. \<not> accepts h x"
    by simp_all
  then have "probe_urls h ((v # pre) @ u # post) w = probe_urls h (pre @ u # post) (log_io (IoFetch v) w)"
    by (auto simp: accepts_def Let_def split: fetch_outcome.splits option.splits)
  with Cons.IH[OF rest] show ?case
    by (simp add: log_io_def)
qed

text \<open>
  C3. The prober builds the six candidate URLs in the fixed precedence and fetches them in
  that order. When candidate \<open>i\<close> is the first one that is HTTP-successful with a body that
  passes the content check, the result is that body with that URL and the trace gains
  exactly the requests to the candidates up to \<open>i\<close>, none to a later one. When no candidate
  is accepted, all six are requested and the result is null. The files are untouched.
\<close>

theorem prober_first_hit:
  "getSkillMdUrls owner repo raw =
     [ ''https://raw.githubusercontent.com/'' @ owner @ ''/'' @ repo @ ''/main/skills/'' @ raw @ ''/SKILL.md'',
       ''https://raw.githubusercontent.com/'' @ owner @ ''/'' @ repo @ ''/master/skills/'' @ raw @ ''/SKILL.md'',
       ''https://raw.githubusercontent.com/'' @ owner @ ''/'' @ repo @ ''/main/SKILL.md'',
       ''https://raw.githubusercontent.com/'' @ owner @ ''/'' @ repo @ ''/master/SKILL.md'',
       ''https://raw.githubusercontent.com/'' @ owner @ ''/'' @ repo @ ''/main/src/skills/'' @ raw @ ''/SKILL.md'',
       ''https://raw.githubusercontent.com/'' @ owner @ ''/'' @ repo @ ''/master/src/skills/'' @ raw @ ''/SKILL.md'' ]
   \<and> (\<forall>i c. i < 6
          \<and> (\<forall>j<i. \<not> accepts h (getSkillMdUrls owner repo raw ! j))
          \<and> fetch h (getSkillMdUrls owner repo raw ! i) = Response True (Some c)
          \<and> valid_skill_md c
        \<longrightarrow> downloadSkillMd h owner repo raw w =
              (Some (c, getSkillMdUrls owner repo raw ! i),
               w\<lparr>trace := trace w @ map IoFetch (take (Suc i) (getSkillMdUrls owner repo raw))\<rparr>))
   \<and> ((\<forall>j<6. \<not> accepts h (getSkillMdUrls owner repo raw ! j))
        \<longrightarrow> downloadSkillMd h owner repo raw w =
              (None, w\<lparr>trace := trace w @ map IoFetch (getSkillMdUrls owner repo raw)\<rparr>))"
proof (intro conjI allI impI)
  let ?urls = "getSkillMdUrls owner repo raw"
  have len: "length ?urls = 6"
    by (simp add: getSkillMdUrls_def Let_def)
  show "?urls =
     [ ''https://raw.githubusercontent.com/'' @ owner @ ''/'' @ repo @ ''/main/skills/'' @ raw @ ''/SKILL.md'',
       ''https://raw.githubusercontent.com/'' @ owner @ ''/'' @ repo @ ''/master/skills/'' @ raw @ ''/SKILL.md'',
       ''https://raw.githubusercontent.com/'' @ owner @ ''/'' @ repo @ ''/main/SKILL.md'',
       ''https://raw.githubusercontent.com/'' @ owner @ ''/'' @ repo @ ''/master/SKILL.md'',
       ''https://raw.githubusercontent.com/'' @ owner @ ''/'' @ repo @ ''/main/src/skills/'' @ raw @ ''/SKILL.md'',
       ''https://raw.githubusercontent.com/'' @ owner @ ''/'' @ repo @ ''/master/src/skills/'' @ raw @ ''/SKILL.md'' ]"
    by (simp add: getSkillMdUrls_def Let_def)
  show "downloadSkillMd h owner repo raw w =
          (Some (c, ?urls ! i), w\<lparr>trace := trace w @ map IoFetch (take (Suc i) ?urls)\<rparr>)"
    if hyp: "i < 6 \<and> (\<forall>j<i. \<not> accepts h (?urls ! j))
          \<and> fetch h (?urls ! i) = Response True (Some c) \<and> valid_skill_md c" for i c
  proof -
    from hyp len have i: "i < length ?urls" by simp
    have split: "?urls = take i ?urls @ ?urls ! i # drop (Suc i) ?urls"
      using i by (rule id_take_nth_drop)
    have pre: "\<forall>v\<in>set (take i ?urls). \<not> accepts h v"
      using hyp i by (auto simp: in_set_conv_nth)
    have "probe_urls h (take i ?urls @ ?urls ! i # drop (Suc i) ?urls) w =
            (Some (c, ?urls ! i), w\<lparr>trace := trace w @ map IoFetch (take i ?urls @ [?urls ! i])\<rparr>)"
      using pre hyp by (intro probe_urls_hit) simp_all
    moreover have "take i ?urls @ [?urls ! i] = take (Suc i) ?urls"
      using i by (simp add: take_Suc_conv_app_nth)
    ultimately show ?thesis
      using split by (simp add: downloadSkillMd_def)
  qed
  show "downloadSkillMd h owner repo raw w = (None, w\<lparr>trace := trace w @ map IoFetch ?urls\<rparr>)"
    if "\<forall>j<6. \<not> accepts h (?urls ! j)"
  proof -
    from that len have "\<forall>u\<in>set ?urls. \<not> accepts h u"
      by (auto simp: in_set_conv_nth)
    then show ?thesis
      unfolding downloadSkillMd_def by (rule probe_urls_miss)
  qed
qed


lemma sample_valid: "valid_skill_md sample_skill_md"
  by (simp add: valid_skill_md_def sample_skill_md_def startsWith_def indexOf_def includes_str_def)

lemma page_invalid: "\<not> valid_skill_md not_found_page"
  by (simp add: valid_skill_md_def not_found_page_def startsWith_def)

theorem prober_first_hit_witness:
  "downloadSkillMd (posix_host (net_only ''https://raw.githubusercontent.com/o/r/master/SKILL.md''))
      ''o'' ''r'' ''s'' \<lparr>files = None, trace = []\<rparr> =
     (Some (sample_skill_md, ''https://raw.githubusercontent.com/o/r/master/SKILL.md''),
      \<lparr>files = None,
       trace = [ IoFetch ''https://raw.githubusercontent.com/o/r/main/skills/s/SKILL.md'',
                 IoFetch ''https://raw.githubusercontent.com/o/r/master/skills/s/SKILL.md'',
                 IoFetch ''https://raw.githubusercontent.com/o/r/main/SKILL.md'',
                 IoFetch ''https://raw.githubusercontent.com/o/r/master/SKILL.md'' ]\<rparr>)"
proof -
  let ?h = "posix_host (net_only ''https://raw.githubusercontent.com/o/r/master/SKILL.md'')"
  let ?urls = "getSkillMdUrls ''o'' ''r'' ''s''"
  have urls: "?urls =
     [ ''https://raw.githubusercontent.com/o/r/main/skills/s/SKILL.md'',
       ''https://raw.githubusercontent.com/o/r/master/skills/s/SKILL.md'',
       ''https://raw.githubusercontent.com/o/r/main/SKILL.md'',
       ''https://raw.githubusercontent.com/o/r/master/SKILL.md'',
       ''https://raw.githubusercontent.com/o/r/main/src/skills/s/SKILL.md'',
       ''https://raw.githubusercontent.com/o/r/master/src/skills/s/SKILL.md'' ]"
    by (simp add: getSkillMdUrls_def)
  have before: "\<forall>j<3. \<not> accepts ?h (?urls ! j)"
  proof (intro allI impI)
    fix j :: nat
    assume "j < 3"
    then consider "j = 0" | "j = 1" | "j = 2" by linarith
    then show "\<not> accepts ?h (?urls ! j)"
      by cases (simp_all add: urls accepts_def posix_host_def net_only_def page_invalid)
  qed
  have hit: "fetch ?h (?urls ! 3) = Response True (Some sample_skill_md)"
    by (simp add: urls posix_host_def net_only_def)
  note all = prober_first_hit[of "''o''" "''r''" "''s''" ?h "\<lparr>files = None, trace = []\<rparr>"]
  note at = conjunct1[OF conjunct2[OF all], rule_format, where i = 3 and c = sample_skill_md]
  have "downloadSkillMd ?h ''o'' ''r'' ''s'' \<lparr>files = None, trace = []\<rparr> =
          (Some (sample_skill_md, ?urls ! 3),
           \<lparr>files = None, trace = []\<rparr>\<lparr>trace := trace \<lparr>files = None, trace = []\<rparr> @ map IoFetch (take (Suc 3) ?urls)\<rparr>)"
    using before hit sample_valid by (intro at) simp
  then show ?thesis
    by (simp add: urls)
qed

subsection \<open>Content check of the prober\<close>

lemma occurs_at_Cons: "occurs_at p (c # cs) (Suc i) = occurs_at p cs i"
  by (simp add: occurs_at_def)

lemma find_from_Some_iff:
  assumes "p \<noteq> []"
  shows "find_from p s k = Some j \<longleftrightarrow>
           k \<le> j \<and> occurs_at p s (j - k) \<and> (\<forall>i<j - k. \<not> occurs_at p s i)"
proof (induction s arbitrary: k)
  case Nil
  then show ?case using assms by (auto simp: occurs_at_def)
next
  case (Cons c cs)
  show ?case
  proof (cases "take (length p) (c # cs) = p")
    case True
    then have here: "occurs_at p (c # cs) 0"
      by (simp add: occurs_at_def)
    have "find_from p (c # cs) k = Some k"
      using True by simp
    moreover have "(k \<le> j \<and> occurs_at p (c # cs) (j - k) \<and> (\<forall>i<j - k. \<not> occurs_at p (c # cs) i)) \<longleftrightarrow> j = k"
      using here by (cases "j - k") auto
    ultimately show ?thesis by auto
  next
    case False
    then have nothere: "\<not> occurs_at p (c # cs) 0"
      by (simp add: occurs_at_def)
    have "find_from p (c # cs) k = find_from p cs (Suc k)"
      using False by simp
    also have "\<dots> = Some j \<longleftrightarrow>
        Suc k \<le> j \<and> occurs_at p cs (j - Suc k) \<and> (\<forall>i<j - Suc k. \<not> occurs_at p cs i)"
      by (rule Cons.IH)
    also have "\<dots> \<longleftrightarrow> k \<le> j \<and> occurs_at p (c # cs) (j - k) \<and> (\<forall>i<j - k. \<not> occurs_at p (c # cs) i)"
    proof (cases "j - k")
      case 0
      then show ?thesis using nothere by auto
    next
      case (Suc m)
      then have jk: "j - Suc k = m" "Suc k \<le> j" "k \<le> j" by simp_all
      have "(\<forall>i<Suc m. \<not> occurs_at p (c # cs) i) \<longleftrightarrow> (\<forall>i<m. \<not> occurs_at p cs i)"
        using nothere by (auto simp: less_Suc_eq_0_disj occurs_at_Cons)
      then show ?thesis
        using Suc jk by (simp add: occurs_at_Cons)
    qed
    finally show ?thesis .
  qed
qed

lemma occurs_at_drop: "occurs_at p (drop n s) i = occurs_at p s (n + i)"
  by (simp add: occurs_at_def add.commute)

lemma occurs_at_sublist: "occurs_at p s i \<Longrightarrow> sublist p s"
  unfolding occurs_at_def sublist_def
  by (metis append_take_drop_id)

lemma indexOf_after_3:
  assumes "p \<noteq> []" and "3 \<le> length s"
  shows "indexOf s p 3 > 3 \<longleftrightarrow> \<not> occurs_at p s 3 \<and> (\<exists>i>3. occurs_at p s i)"
proof
  assume "indexOf s p 3 > 3"
  then obtain j where j: "find_from p (drop 3 s) 3 = Some j" "3 < j"
    using assms(2) by (auto simp: indexOf_def min_def split: option.splits)
  then have "occurs_at p (drop 3 s) (j - 3)" "\<forall>i<j - 3. \<not> occurs_at p (drop 3 s) i"
    using find_from_Some_iff[OF assms(1)] by blast+
  then have occ: "occurs_at p s (3 + (j - 3))" and none: "\<forall>i<j - 3. \<not> occurs_at p s (3 + i)"
    by (simp_all add: occurs_at_drop)
  from j(2) have "0 < j - 3" by simp
  with none have "\<not> occurs_at p s (3 + 0)" by blast
  moreover from occ j(2) have "occurs_at p s j" by simp
  ultimately show "\<not> occurs_at p s 3 \<and> (\<exists>i>3. occurs_at p s i)"
    using j(2) by auto
next
  assume r: "\<not> occurs_at p s 3 \<and> (\<exists>i>3. occurs_at p s i)"
  then obtain i where i: "3 < i" "occurs_at p s i" by blast
  then have "occurs_at p (drop 3 s) (i - 3)"
    by (simp add: occurs_at_drop)
  then have "sublist p (drop 3 s)"
    by (rule occurs_at_sublist)
  then obtain j where j: "find_from p (drop 3 s) 3 = Some j"
    using find_from_None[of p "drop 3 s" 3] by auto
  then have "3 \<le> j" "occurs_at p (drop 3 s) (j - 3)"
    using find_from_Some_iff[OF assms(1)] by blast+
  then have "j \<noteq> 3"
    using r by (auto simp: occurs_at_drop)
  with \<open>3 \<le> j\<close> j show "indexOf s p 3 > 3"
    using assms(2) by (simp add: indexOf_def min_def)
qed

text \<open>
  C4, as the code has it. The check accepts a body exactly when it starts with \<^verbatim>\<open>---\<close>,
  the first occurrence of \<^verbatim>\<open>---\<close> from index 3 on lies at an index greater than 3 (there is
  none at index 3 itself and there is one later), and \<^verbatim>\<open>name:\<close> occurs anywhere in the body.
  A body that fails the check, or cannot be read, makes the prober go on to the next
  candidate after logging the request.
\<close>

theorem content_check_as_coded:
  "valid_skill_md content =
     (prefix ''---'' content \<and> \<not> occurs_at ''---'' content 3
      \<and> (\<exists>i>3. occurs_at ''---'' content i) \<and> sublist ''name:'' content)
   \<and> (fetch h url = Response ok body \<and> (\<forall>c. body = Some c \<longrightarrow> \<not> valid_skill_md c)
        \<longrightarrow> probe_urls h (url # urls) w = probe_urls h urls (log_io (IoFetch url) w))"
proof (intro conjI impI)
  show "valid_skill_md content =
     (prefix ''---'' content \<and> \<not> occurs_at ''---'' content 3
      \<and> (\<exists>i>3. occurs_at ''---'' content i) \<and> sublist ''name:'' content)"
  proof (cases "prefix ''---'' content")
    case True
    then have "3 \<le> length content"
      by (auto simp: prefix_def)
    then show ?thesis
      using indexOf_after_3[of "''---''" content]
      by (simp add: valid_skill_md_def startsWith_prefix includes_str_sublist)
  next
    case False
    then show ?thesis
      by (simp add: valid_skill_md_def startsWith_prefix)
  qed
  show "probe_urls h (url # urls) w = probe_urls h urls (log_io (IoFetch url) w)"
    if "fetch h url = Response ok body \<and> (\<forall>c. body = Some c \<longrightarrow> \<not> valid_skill_md c)"
    using that by (auto simp: Let_def split: option.splits)
qed

theorem content_check_as_coded_witness:
  "\<not> valid_skill_md not_found_page
   \<and> probe_urls (posix_host (\<lambda>u. Response True (Some not_found_page))) [''a'', ''b''] \<lparr>files = None, trace = []\<rparr>
     = probe_urls (posix_host (\<lambda>u. Response True (Some not_found_page))) [''b''] \<lparr>files = None, trace = [IoFetch ''a'']\<rparr>"
proof -
  let ?h = "posix_host (\<lambda>u. Response True (Some not_found_page))"
  note t = content_check_as_coded[of not_found_page ?h "''a''" True "Some not_found_page" "[''b'']"
      "\<lparr>files = None, trace = []\<rparr>"]
  have np: "\<not> prefix ''---'' not_found_page"
    by (simp add: not_found_page_def)
  with t have inv: "\<not> valid_skill_md not_found_page"
    by blast
  have f: "fetch ?h ''a'' = Response True (Some not_found_page)"
    by (simp add: posix_host_def)
  from t f inv have "probe_urls ?h [''a'', ''b''] \<lparr>files = None, trace = []\<rparr>
     = probe_urls ?h [''b''] (log_io (IoFetch ''a'') \<lparr>files = None, trace = []\<rparr>)"
    by blast
  with inv show ?thesis
    by (simp add: log_io_def)
qed

text \<open>
  The check of the specification asks for \<^verbatim>\<open>name:\<close> between the two delimiters; the code
  accepts a body whose only \<^verbatim>\<open>name:\<close> comes after the second delimiter.
\<close>

theorem content_check_spec_counterexample:
  "valid_skill_md stray_name_md \<and> \<not> spec_valid_skill_md stray_name_md"
  by (simp add: valid_skill_md_def spec_valid_skill_md_def stray_name_md_def startsWith_def
      indexOf_def includes_str_def occurs_at_def sublist_Cons_right upt_rec[of "numeral _"] upt_rec[of "Suc _"])

subsection \<open>File-system calls and the write sequence of install\<close>

lemma exists_in_mkdir_p:
  "mkdir_p fs d = Inr fs' \<Longrightarrow> exists_in fs' d' g = exists_in fs d' g"
  by (auto simp: mkdir_p_def exists_in_def lookup_dir_def update_conv'
      split: option.splits entry.splits if_splits)

lemma exists_in_write_file:
  "write_file fs d f c = Inr fs' \<Longrightarrow>
     exists_in fs' d' g = ((d' = d \<and> g = f) \<or> exists_in fs d' g)"
  by (auto simp: write_file_def exists_in_def lookup_dir_def update_conv'
      split: option.splits entry.splits item.splits if_splits)

lemma fs_mkdir_exists:
  "fs_mkdir d w = (r, w') \<Longrightarrow> exists_in (files w') d' g = exists_in (files w) d' g"
  by (auto simp: fs_mkdir_def log_io_def exists_in_mkdir_p split: sum.splits)

lemma fs_writeFile_exists:
  "fs_writeFile d f c w = (r, w') \<Longrightarrow>
     exists_in (files w') d' g = ((r = Inr () \<and> d' = d \<and> g = f) \<or> exists_in (files w) d' g)"
  by (auto simp: fs_writeFile_def log_io_def exists_in_write_file split: sum.splits)

lemma fs_mkdir_trace: "fs_mkdir d w = (r, w') \<Longrightarrow> trace w' = trace w @ [IoMkdir d]"
  by (auto simp: fs_mkdir_def log_io_def split: sum.splits)

lemma fs_writeFile_trace:
  "fs_writeFile d f c w = (r, w') \<Longrightarrow> trace w' = trace w @ [IoWriteFile d f c]"
  by (auto simp: fs_writeFile_def log_io_def split: sum.splits)

text \<open>The steps of the write sequence, one after the other.\<close>

lemma run_install_writes_steps:
  assumes "run_awaits (install_writes safe content meta) w = (Inr (), w')"
  shows "\<exists>w1 w2.
           fs_mkdir safe w = (Inr (), w1)
         \<and> fs_writeFile safe ''SKILL.md'' (Text content) w1 = (Inr (), w2)
         \<and> fs_writeFile safe ''.vibeclaw.json'' (MetaJson meta) w2 = (Inr (), w')"
proof -
  obtain r1 w1 where s1: "fs_mkdir safe w = (r1, w1)" by (cases "fs_mkdir safe w")
  obtain r2 w2 where s2: "fs_writeFile safe ''SKILL.md'' (Text content) w1 = (r2, w2)"
    by (cases "fs_writeFile safe ''SKILL.md'' (Text content) w1")
  obtain r3 w3 where s3: "fs_writeFile safe ''.vibeclaw.json'' (MetaJson meta) w2 = (r3, w3)"
    by (cases "fs_writeFile safe ''.vibeclaw.json'' (MetaJson meta) w2")
  from assms s1 have r1: "r1 = Inr ()"
    by (cases r1) (simp_all add: install_writes_def)
  from assms s1 s2 r1 have r2: "r2 = Inr ()"
    by (cases r2) (simp_all add: install_writes_def)
  from assms s1 s2 s3 r1 r2 have r3: "r3 = Inr ()" and "w3 = w'"
    by (cases r3; simp add: install_writes_def)+
  with s1 s2 s3 r1 r2 show ?thesis by simp
qed

lemma run_prefix_keeps_order:
  assumes "k \<le> 3"
    and "run_awaits (take k (install_writes safe content meta)) w = (r, wk)"
    and "exists_in (files w) safe ''.vibeclaw.json'' \<longrightarrow> exists_in (files w) safe ''SKILL.md''"
  shows "exists_in (files wk) safe ''.vibeclaw.json'' \<longrightarrow> exists_in (files wk) safe ''SKILL.md''"
proof -
  obtain r1 w1 where s1: "fs_mkdir safe w = (r1, w1)" by (cases "fs_mkdir safe w")
  obtain r2 w2 where s2: "fs_writeFile safe ''SKILL.md'' (Text content) w1 = (r2, w2)"
    by (cases "fs_writeFile safe ''SKILL.md'' (Text content) w1")
  obtain r3 w3 where s3: "fs_writeFile safe ''.vibeclaw.json'' (MetaJson meta) w2 = (r3, w3)"
    by (cases "fs_writeFile safe ''.vibeclaw.json'' (MetaJson meta) w2")
  note e1 = fs_mkdir_exists[OF s1] and e2 = fs_writeFile_exists[OF s2]
    and e3 = fs_writeFile_exists[OF s3]
  from assms(1) consider "k = 0" | "k = 1" | "k = 2" | "k = 3" by linarith
  then show ?thesis
  proof cases
    case 1
    with assms show ?thesis by simp
  next
    case 2
    with assms(2) s1 have "wk = w1"
      by (cases r1) (simp_all add: install_writes_def)
    with assms(3) e1 show ?thesis by simp
  next
    case 3
    with assms(2) s1 s2 have "wk = w1 \<or> wk = w2"
      by (cases r1; cases r2) (simp_all add: install_writes_def numeral_2_eq_2)
    with assms(3) e1 e2 show ?thesis by auto
  next
    case 4
    with assms(2) s1 s2 s3 have "wk = w1 \<or> wk = w2 \<or> (r2 = Inr () \<and> wk = w3)"
      by (cases r1; cases r2; cases r3) (simp_all add: install_writes_def)
    with assms(3) e1 e2 e3 show ?thesis by auto
  qed
qed

lemma run_prefix_no_record:
  assumes "k \<le> 2"
    and "run_awaits (take k (install_writes safe content meta)) w = (r, wk)"
    and "\<not> exists_in (files w) safe ''.vibeclaw.json''"
  shows "\<not> exists_in (files wk) safe ''.vibeclaw.json''"
proof -
  obtain r1 w1 where s1: "fs_mkdir safe w = (r1, w1)" by (cases "fs_mkdir safe w")
  obtain r2 w2 where s2: "fs_writeFile safe ''SKILL.md'' (Text content) w1 = (r2, w2)"
    by (cases "fs_writeFile safe ''SKILL.md'' (Text content) w1")
  note e1 = fs_mkdir_exists[OF s1] and e2 = fs_writeFile_exists[OF s2]
  from assms(1) consider "k = 0" | "k = 1" | "k = 2" by linarith
  then show ?thesis
  proof cases
    case 1
    with assms show ?thesis by simp
  next
    case 2
    with assms(2) s1 have "wk = w1"
      by (cases r1) (simp_all add: install_writes_def)
    with assms(3) e1 show ?thesis by simp
  next
    case 3
    with assms(2) s1 s2 have "wk = w1 \<or> wk = w2"
      by (cases r1; cases r2) (simp_all add: install_writes_def numeral_2_eq_2)
    with assms(3) e1 e2 show ?thesis by auto
  qed
qed

lemma run_prefix_has_content:
  assumes "run_awaits (install_writes safe content meta) w = (Inr (), w')"
    and "2 \<le> k" and "k \<le> 3"
  shows "exists_in (files (snd (run_awaits (take k (install_writes safe content meta)) w))) safe ''SKILL.md''"
proof -
  from run_install_writes_steps[OF assms(1)] obtain w1 w2 where
    s: "fs_mkdir safe w = (Inr (), w1)"
       "fs_writeFile safe ''SKILL.md'' (Text content) w1 = (Inr (), w2)"
       "fs_writeFile safe ''.vibeclaw.json'' (MetaJson meta) w2 = (Inr (), w')"
    by blast
  have c2: "exists_in (files w2) safe ''SKILL.md''"
    using fs_writeFile_exists[OF s(2)] by simp
  then have c3: "exists_in (files w') safe ''SKILL.md''"
    using fs_writeFile_exists[OF s(3)] by simp
  from assms(2,3) consider "k = 2" | "k = 3" by linarith
  then show ?thesis
  proof cases
    case 1
    then show ?thesis using s c2 by (simp add: install_writes_def numeral_2_eq_2)
  next
    case 2
    then show ?thesis using s c3 by (simp add: install_writes_def)
  qed
qed

lemma run_install_writes_trace:
  assumes "run_awaits (install_writes safe content meta) w = (Inr (), w')"
  shows "trace w' = trace w @ [IoMkdir safe, IoWriteFile safe ''SKILL.md'' (Text content),
                               IoWriteFile safe ''.vibeclaw.json'' (MetaJson meta)]"
proof -
  from run_install_writes_steps[OF assms] obtain w1 w2 where
    s: "fs_mkdir safe w = (Inr (), w1)"
       "fs_writeFile safe ''SKILL.md'' (Text content) w1 = (Inr (), w2)"
       "fs_writeFile safe ''.vibeclaw.json'' (MetaJson meta) w2 = (Inr (), w')"
    by blast
  show ?thesis
    using fs_mkdir_trace[OF s(1)] fs_writeFile_trace[OF s(2)] fs_writeFile_trace[OF s(3)]
    by simp
qed

lemma probe_urls_files: "files (snd (probe_urls h us w)) = files w"
  by (induction us arbitrary: w)
    (auto simp: Let_def log_io_def split: fetch_outcome.splits option.splits)

lemma downloadSkillMd_files:
  "downloadSkillMd h owner repo raw w = (r, w') \<Longrightarrow> files w' = files w"
  using probe_urls_files[of h "getSkillMdUrls owner repo raw" w]
  by (simp add: downloadSkillMd_def)

text \<open>The shape of a run that ends in a fresh success.\<close>

lemma install_fresh_run:
  assumes "installSkillFromGitHub h owner repo raw force w = (Inr res, w')"
    and "success res" and "alreadyInstalled res = None"
  shows "\<exists>safe content url w2.
           sanitizeSkillName h raw = Some safe
         \<and> downloadSkillMd h owner repo raw (log_io (IoAccess safe ''SKILL.md'') w)
             = (Some (content, url), w2)
         \<and> run_awaits (install_writes safe content (install_meta h owner repo raw url)) w2
             = (Inr (), w')"
  using assms
  by (auto simp: installSkillFromGitHub_def fs_access_def Let_def
      split: option.splits if_splits prod.splits sum.splits)

subsection \<open>Order of the two writes\<close>

text \<open>
  C7. In a run of install that ends in a fresh success (success without the
  already-installed flag) the three awaited calls are the directory creation, the write of
  the content file and the write of the Install Record, in this order in the trace. Cutting
  the sequence after any number \<open>k\<close> of these calls leaves a state in which the content file
  is there as soon as \<open>k\<close> is at least 2, and in which the target directory holds a record
  only together with the content file, provided it did not hold a record without content
  before the install began. When the target held no record before (a fresh target), no record
  is there until the third call: an interruption between the two writes leaves the content
  without a record.
\<close>

theorem content_written_before_record:
  assumes "installSkillFromGitHub h owner repo raw force w = (Inr res, w')"
    and "success res" and "alreadyInstalled res = None"
  shows "\<exists>safe content url w2.
           sanitizeSkillName h raw = Some safe
         \<and> downloadSkillMd h owner repo raw (log_io (IoAccess safe ''SKILL.md'') w)
             = (Some (content, url), w2)
         \<and> files w2 = files w
         \<and> run_awaits (install_writes safe content (install_meta h owner repo raw url)) w2
             = (Inr (), w')
         \<and> trace w' = trace w2 @
             [ IoMkdir safe,
               IoWriteFile safe ''SKILL.md'' (Text content),
               IoWriteFile safe ''.vibeclaw.json'' (MetaJson (install_meta h owner repo raw url)) ]
         \<and> (\<forall>k\<le>3. \<forall>wk.
               wk = snd (run_awaits
                          (take k (install_writes safe content (install_meta h owner repo raw url))) w2)
               \<longrightarrow> (2 \<le> k \<longrightarrow> exists_in (files wk) safe ''SKILL.md'')
                 \<and> ((exists_in (files w) safe ''.vibeclaw.json'' \<longrightarrow> exists_in (files w) safe ''SKILL.md'')
                      \<longrightarrow> exists_in (files wk) safe ''.vibeclaw.json''
                      \<longrightarrow> exists_in (files wk) safe ''SKILL.md'')
                 \<and> (\<not> exists_in (files w) safe ''.vibeclaw.json'' \<longrightarrow> k \<le> 2
                      \<longrightarrow> \<not> exists_in (files wk) safe ''.vibeclaw.json''))"
proof -
  from install_fresh_run[OF assms] obtain safe content url w2 where
    run: "sanitizeSkillName h raw = Some safe"
      "downloadSkillMd h owner repo raw (log_io (IoAccess safe ''SKILL.md'') w) = (Some (content, url), w2)"
      "run_awaits (install_writes safe content (install_meta h owner repo raw url)) w2 = (Inr (), w')"
    by blast
  let ?ops = "install_writes safe content (install_meta h owner repo raw url)"
  have f: "files w2 = files w"
    using downloadSkillMd_files[OF run(2)] by (simp add: log_io_def)
  have t: "trace w' = trace w2 @
             [ IoMkdir safe,
               IoWriteFile safe ''SKILL.md'' (Text content),
               IoWriteFile safe ''.vibeclaw.json'' (MetaJson (install_meta h owner repo raw url)) ]"
    by (rule run_install_writes_trace[OF run(3)])
  have p: "(2 \<le> k \<longrightarrow> exists_in (files wk) safe ''SKILL.md'')
         \<and> ((exists_in (files w) safe ''.vibeclaw.json'' \<longrightarrow> exists_in (files w) safe ''SKILL.md'')
              \<longrightarrow> exists_in (files wk) safe ''.vibeclaw.json''
              \<longrightarrow> exists_in (files wk) safe ''SKILL.md'')
         \<and> (\<not> exists_in (files w) safe ''.vibeclaw.json'' \<longrightarrow> k \<le> 2
              \<longrightarrow> \<not> exists_in (files wk) safe ''.vibeclaw.json'')"
    if k: "k \<le> 3" and wk: "wk = snd (run_awaits (take k ?ops) w2)" for k wk
  proof (intro conjI impI)
    show "\<not> exists_in (files wk) safe ''.vibeclaw.json''"
      if "\<not> exists_in (files w) safe ''.vibeclaw.json''" and "k \<le> 2"
    proof -
      have "run_awaits (take k ?ops) w2 = (fst (run_awaits (take k ?ops) w2), wk)"
        using wk by simp
      from run_prefix_no_record[OF that(2) this] that(1) f show ?thesis by simp
    qed
    show "exists_in (files wk) safe ''SKILL.md''" if "2 \<le> k"
      using run_prefix_has_content[OF run(3) that k] wk by simp
    show "exists_in (files wk) safe ''SKILL.md''"
      if "exists_in (files w) safe ''.vibeclaw.json'' \<longrightarrow> exists_in (files w) safe ''SKILL.md''"
        and "exists_in (files wk) safe ''.vibeclaw.json''"
    proof -
      have "run_awaits (take k ?ops) w2 = (fst (run_awaits (take k ?ops) w2), wk)"
        using wk by simp
      from run_prefix_keeps_order[OF k this] that f show ?thesis by simp
    qed
  qed
  from run f t p show ?thesis by blast
qed

lemma demo_sanitize: "sanitizeSkillName demo_host ''demo'' = Some ''demo''"
  by (simp add: sanitizeSkillName_def strip_name_def allowed_char_def includes_str_def
      indexOf_def startsWith_def demo_host_def posix_host_def)

lemma demo_download:
  "downloadSkillMd demo_host ''o'' ''r'' ''demo'' w =
     (Some (sample_skill_md, ''https://raw.githubusercontent.com/o/r/main/skills/demo/SKILL.md''),
      log_io (IoFetch ''https://raw.githubusercontent.com/o/r/main/skills/demo/SKILL.md'') w)"
  by (simp add: downloadSkillMd_def getSkillMdUrls_def demo_host_def posix_host_def net_only_def
      sample_valid)

lemma demo_host_fields:
  "path_join demo_host (SKILLS_DIR demo_host) d = ''/home/u/.openclaw/skills/'' @ d"
  "now_iso demo_host = ''2026-01-01T00:00:00.000Z''"
  by (simp_all add: demo_host_def posix_host_def)

lemma demo_install:
  "installSkillFromGitHub demo_host ''o'' ''r'' ''demo'' False \<lparr>files = None, trace = []\<rparr> =
     (Inr demo_result, demo_after)"
  by (simp add: installSkillFromGitHub_def demo_sanitize demo_download demo_host_fields
      fs_access_def exists_in_def
      lookup_dir_def log_io_def install_writes_def install_meta_def fs_mkdir_def mkdir_p_def
      fs_writeFile_def write_file_def demo_result_def demo_installed_def demo_record_def
      demo_after_def)

theorem content_written_before_record_witness:
  "installSkillFromGitHub demo_host ''o'' ''r'' ''demo'' False \<lparr>files = None, trace = []\<rparr> =
     (Inr demo_result, demo_after)
   \<and> success demo_result \<and> alreadyInstalled demo_result = None
   \<and> trace demo_after = trace demo_probed @
        [ IoMkdir ''demo'',
          IoWriteFile ''demo'' ''SKILL.md'' (Text sample_skill_md),
          IoWriteFile ''demo'' ''.vibeclaw.json'' (MetaJson demo_record) ]
   \<and> exists_in
        (files (snd (run_awaits (take 2 (install_writes ''demo'' sample_skill_md demo_record))
                       demo_probed)))
        ''demo'' ''SKILL.md''
   \<and> \<not> exists_in
        (files (snd (run_awaits (take 2 (install_writes ''demo'' sample_skill_md demo_record))
                       demo_probed)))
        ''demo'' ''.vibeclaw.json''
   \<and> exists_in
        (files (snd (run_awaits (take 3 (install_writes ''demo'' sample_skill_md demo_record))
                       demo_probed)))
        ''demo'' ''SKILL.md''"
proof -
  have s: "success demo_result" and a: "alreadyInstalled demo_result = None"
    by (simp_all add: demo_result_def)
  have m: "install_meta demo_host ''o'' ''r'' ''demo''
             ''https://raw.githubusercontent.com/o/r/main/skills/demo/SKILL.md'' = demo_record"
    by (simp add: install_meta_def demo_host_fields demo_record_def)
  from content_written_before_record[OF demo_install s a]
  obtain safe content url w2 where
    r: "sanitizeSkillName demo_host ''demo'' = Some safe"
      "downloadSkillMd demo_host ''o'' ''r'' ''demo''
          (log_io (IoAccess safe ''SKILL.md'') \<lparr>files = None, trace = []\<rparr>) = (Some (content, url), w2)"
      "trace demo_after = trace w2 @
         [ IoMkdir safe,
           IoWriteFile safe ''SKILL.md'' (Text content),
           IoWriteFile safe ''.vibeclaw.json'' (MetaJson (install_meta demo_host ''o'' ''r'' ''demo'' url)) ]"
      "\<forall>k\<le>3. \<forall>wk.
          wk = snd (run_awaits
                     (take k (install_writes safe content (install_meta demo_host ''o'' ''r'' ''demo'' url))) w2)
          \<longrightarrow> (2 \<le> k \<longrightarrow> exists_in (files wk) safe ''SKILL.md'')
            \<and> ((exists_in (files \<lparr>files = None, trace = []\<rparr>) safe ''.vibeclaw.json''
                  \<longrightarrow> exists_in (files \<lparr>files = None, trace = []\<rparr>) safe ''SKILL.md'')
                 \<longrightarrow> exists_in (files wk) safe ''.vibeclaw.json''
                 \<longrightarrow> exists_in (files wk) safe ''SKILL.md'')
            \<and> (\<not> exists_in (files \<lparr>files = None, trace = []\<rparr>) safe ''.vibeclaw.json'' \<longrightarrow> k \<le> 2
                 \<longrightarrow> \<not> exists_in (files wk) safe ''.vibeclaw.json'')"
    by blast
  from r(1) demo_sanitize have safe: "safe = ''demo''" by simp
  have d: "downloadSkillMd demo_host ''o'' ''r'' ''demo''
             (log_io (IoAccess ''demo'' ''SKILL.md'') \<lparr>files = None, trace = []\<rparr>) =
           (Some (sample_skill_md, ''https://raw.githubusercontent.com/o/r/main/skills/demo/SKILL.md''),
            demo_probed)"
    by (simp add: demo_download demo_probed_def)
  from r(2) have "(Some (content, url), w2) =
           (Some (sample_skill_md, ''https://raw.githubusercontent.com/o/r/main/skills/demo/SKILL.md''),
            demo_probed)"
    unfolding safe d by (rule sym)
  then have got: "content = sample_skill_md"
    "url = ''https://raw.githubusercontent.com/o/r/main/skills/demo/SKILL.md''"
    "w2 = demo_probed"
    by simp_all
  from r(3) have t: "trace demo_after = trace demo_probed @
        [ IoMkdir ''demo'',
          IoWriteFile ''demo'' ''SKILL.md'' (Text sample_skill_md),
          IoWriteFile ''demo'' ''.vibeclaw.json'' (MetaJson demo_record) ]"
    by (simp add: safe got m)
  from r(4)[rule_format, of 2] have k2: "exists_in
        (files (snd (run_awaits (take 2 (install_writes ''demo'' sample_skill_md demo_record))
                       demo_probed)))
        ''demo'' ''SKILL.md''"
    by (simp add: safe got m)
  have fresh: "\<not> exists_in (files \<lparr>files = None, trace = []\<rparr>) ''demo'' ''.vibeclaw.json''"
    by (simp add: exists_in_def lookup_dir_def)
  from r(4)[rule_format, of 2] fresh have u2: "\<not> exists_in
        (files (snd (run_awaits (take 2 (install_writes ''demo'' sample_skill_md demo_record))
                       demo_probed)))
        ''demo'' ''.vibeclaw.json''"
    by (simp add: safe got m)
  from r(4)[rule_format, of 3] have k3: "exists_in
        (files (snd (run_awaits (take 3 (install_writes ''demo'' sample_skill_md demo_record))
                       demo_probed)))
        ''demo'' ''SKILL.md''"
    by (simp add: safe got m)
  from demo_install s a t k2 u2 k3 show ?thesis
    by blast
qed

subsection \<open>Install when the skill is already there\<close>

lemma install_already:
  assumes "sanitizeSkillName h raw = Some safe" and "exists_in (files w) safe ''SKILL.md''"
  shows "installSkillFromGitHub h owner repo raw False w =
           (Inr \<lparr> success = True, skillName = raw,
                  installPath = Some (path_join h (SKILLS_DIR h) safe),
                  sourceUrl = None, error = None, alreadyInstalled = Some True \<rparr>,
            log_io (IoAccess safe ''SKILL.md'') w)"
  using assms by (simp add: installSkillFromGitHub_def fs_access_def)

lemma install_success_has_content:
  assumes "installSkillFromGitHub h owner repo raw force w = (Inr res, w1)" and "success res"
  shows "\<exists>safe. sanitizeSkillName h raw = Some safe \<and> exists_in (files w1) safe ''SKILL.md''"
proof (cases "alreadyInstalled res")
  case None
  from install_fresh_run[OF assms None] obtain safe content url w2 where
    run: "sanitizeSkillName h raw = Some safe"
      "run_awaits (install_writes safe content (install_meta h owner repo raw url)) w2 = (Inr (), w1)"
    by blast
  from run_prefix_has_content[OF run(2), of 3] run(2) have "exists_in (files w1) safe ''SKILL.md''"
    by (simp add: install_writes_def)
  with run(1) show ?thesis by blast
next
  case (Some b)
  with assms show ?thesis
    by (auto simp: installSkillFromGitHub_def fs_access_def log_io_def Let_def
        split: option.splits if_splits prod.splits sum.splits)
qed

text \<open>
  C5, as the code has it. The already-installed test of install looks for the content file
  \<^verbatim>\<open>SKILL.md\<close>, not for the Install Record. For a valid identifier whose target directory
  holds \<^verbatim>\<open>SKILL.md\<close>, install without force returns success with the already-installed flag
  and its only call is that existence test: no fetch, no write. Hence after any successful
  install a second install without force returns the flag, again with the existence test
  as its only call.
\<close>

theorem already_installed_is_noop:
  "(sanitizeSkillName h raw = Some safe \<and> exists_in (files w) safe ''SKILL.md''
      \<longrightarrow> installSkillFromGitHub h owner repo raw False w =
            (Inr \<lparr> success = True, skillName = raw,
                   installPath = Some (path_join h (SKILLS_DIR h) safe),
                   sourceUrl = None, error = None, alreadyInstalled = Some True \<rparr>,
             log_io (IoAccess safe ''SKILL.md'') w))
   \<and> (installSkillFromGitHub h owner repo raw force w = (Inr res, w1) \<and> success res
      \<longrightarrow> (\<exists>safe res2.
             sanitizeSkillName h raw = Some safe
           \<and> installSkillFromGitHub h owner repo raw False w1 =
               (Inr res2, log_io (IoAccess safe ''SKILL.md'') w1)
           \<and> success res2 \<and> alreadyInstalled res2 = Some True))"
proof (intro conjI impI)
  show "installSkillFromGitHub h owner repo raw False w =
            (Inr \<lparr> success = True, skillName = raw,
                   installPath = Some (path_join h (SKILLS_DIR h) safe),
                   sourceUrl = None, error = None, alreadyInstalled = Some True \<rparr>,
             log_io (IoAccess safe ''SKILL.md'') w)"
    if "sanitizeSkillName h raw = Some safe \<and> exists_in (files w) safe ''SKILL.md''"
    using that install_already by blast
  show "\<exists>safe res2.
             sanitizeSkillName h raw = Some safe
           \<and> installSkillFromGitHub h owner repo raw False w1 =
               (Inr res2, log_io (IoAccess safe ''SKILL.md'') w1)
           \<and> success res2 \<and> alreadyInstalled res2 = Some True"
    if "installSkillFromGitHub h owner repo raw force w = (Inr res, w1) \<and> success res"
  proof -
    from that install_success_has_content obtain safe where
      s: "sanitizeSkillName h raw = Some safe" "exists_in (files w1) safe ''SKILL.md''"
      by blast
    from install_already[OF s, of owner repo] s(1) show ?thesis
      by auto
  qed
qed

theorem already_installed_is_noop_witness:
  "installSkillFromGitHub demo_host ''o'' ''r'' ''demo'' False \<lparr>files = None, trace = []\<rparr> =
     (Inr demo_result, demo_after)
   \<and> success demo_result
   \<and> installSkillFromGitHub demo_host ''o'' ''r'' ''demo'' False demo_after =
       (Inr \<lparr> success = True, skillName = ''demo'',
              installPath = Some ''/home/u/.openclaw/skills/demo'',
              sourceUrl = None, error = None, alreadyInstalled = Some True \<rparr>,
        log_io (IoAccess ''demo'' ''SKILL.md'') demo_after)"
proof -
  have s: "success demo_result"
    by (simp add: demo_result_def)
  have e: "exists_in (files demo_after) ''demo'' ''SKILL.md''"
    by (simp add: demo_after_def demo_installed_def exists_in_def lookup_dir_def)
  from already_installed_is_noop[of demo_host "''demo''" "''demo''" demo_after "''o''" "''r''"]
    demo_sanitize e
  have "installSkillFromGitHub demo_host ''o'' ''r'' ''demo'' False demo_after =
            (Inr \<lparr> success = True, skillName = ''demo'',
                   installPath = Some (path_join demo_host (SKILLS_DIR demo_host) ''demo''),
                   sourceUrl = None, error = None, alreadyInstalled = Some True \<rparr>,
             log_io (IoAccess ''demo'' ''SKILL.md'') demo_after)"
    by blast
  with demo_install s show ?thesis
    by (simp add: demo_host_fields)
qed

text \<open>
  A directory that holds an Install Record but no \<^verbatim>\<open>SKILL.md\<close>: install without force does
  not report it as installed; it fetches and writes.
\<close>

theorem record_alone_is_not_installed_counterexample:
  "sanitizeSkillName demo_host ''demo'' = Some ''demo''
   \<and> exists_in (files stale_world) ''demo'' ''.vibeclaw.json''
   \<and> installSkillFromGitHub demo_host ''o'' ''r'' ''demo'' False stale_world =
       (Inr demo_result, stale_after)
   \<and> alreadyInstalled demo_result = None
   \<and> IoFetch ''https://raw.githubusercontent.com/o/r/main/skills/demo/SKILL.md'' \<in> set (trace stale_after)
   \<and> IoWriteFile ''demo'' ''SKILL.md'' (Text sample_skill_md) \<in> set (trace stale_after)
   \<and> files stale_after \<noteq> files stale_world"
proof -
  have "installSkillFromGitHub demo_host ''o'' ''r'' ''demo'' False stale_world =
       (Inr demo_result, stale_after)"
    by (simp add: installSkillFromGitHub_def demo_sanitize demo_download demo_host_fields
      fs_access_def exists_in_def
      lookup_dir_def log_io_def install_writes_def install_meta_def fs_mkdir_def mkdir_p_def
      fs_writeFile_def write_file_def demo_result_def demo_record_def
      stale_world_def stale_after_def)
  moreover have "exists_in (files stale_world) ''demo'' ''.vibeclaw.json''"
    by (simp add: stale_world_def exists_in_def lookup_dir_def)
  moreover have "alreadyInstalled demo_result = None"
    by (simp add: demo_result_def)
  moreover have "files stale_after \<noteq> files stale_world"
    by (simp add: stale_after_def stale_world_def)
  moreover have "IoFetch ''https://raw.githubusercontent.com/o/r/main/skills/demo/SKILL.md'' \<in> set (trace stale_after)"
    "IoWriteFile ''demo'' ''SKILL.md'' (Text sample_skill_md) \<in> set (trace stale_after)"
    by (simp_all add: stale_after_def)
  ultimately show ?thesis
    using demo_sanitize by blast
qed

subsection \<open>Install when no candidate is accepted\<close>

lemma not_found_error_nonempty: "not_found_error owner repo raw \<noteq> []"
  by (simp add: not_found_error_def)

text \<open>
  C6. When the identifier is valid, the already-installed exit is not taken and none of the
  six candidates is accepted, the prober returns null and install returns the not-found
  failure with a non-empty error text. The files are those of the start, and the calls made
  are the existence test and the six requests: no directory is created, no file written.
\<close>

theorem probe_exhausted_leaves_no_state:
  assumes "sanitizeSkillName h raw = Some safe"
    and "force \<or> \<not> exists_in (files w) safe ''SKILL.md''"
    and "\<forall>url\<in>set (getSkillMdUrls owner repo raw). \<not> accepts h url"
  shows "fst (downloadSkillMd h owner repo raw (log_io (IoAccess safe ''SKILL.md'') w)) = None
       \<and> installSkillFromGitHub h owner repo raw force w =
           (Inr \<lparr> success = False, skillName = raw, installPath = None, sourceUrl = None,
                  error = Some (not_found_error owner repo raw), alreadyInstalled = None \<rparr>,
            w\<lparr>trace := trace w @ IoAccess safe ''SKILL.md''
                          # map IoFetch (getSkillMdUrls owner repo raw)\<rparr>)
       \<and> not_found_error owner repo raw \<noteq> []"
proof -
  let ?w1 = "log_io (IoAccess safe ''SKILL.md'') w"
  have d: "downloadSkillMd h owner repo raw ?w1 =
             (None, ?w1\<lparr>trace := trace ?w1 @ map IoFetch (getSkillMdUrls owner repo raw)\<rparr>)"
    unfolding downloadSkillMd_def using assms(3) by (rule probe_urls_miss)
  have "installSkillFromGitHub h owner repo raw force w =
           (Inr \<lparr> success = False, skillName = raw, installPath = None, sourceUrl = None,
                  error = Some (not_found_error owner repo raw), alreadyInstalled = None \<rparr>,
            ?w1\<lparr>trace := trace ?w1 @ map IoFetch (getSkillMdUrls owner repo raw)\<rparr>)"
    using assms(1,2) d by (auto simp: installSkillFromGitHub_def fs_access_def)
  with d show ?thesis
    by (simp add: log_io_def not_found_error_nonempty)
qed

lemma dead_sanitize: "sanitizeSkillName dead_host ''demo'' = Some ''demo''"
  by (simp add: sanitizeSkillName_def strip_name_def allowed_char_def includes_str_def
      indexOf_def startsWith_def dead_host_def posix_host_def)

lemma dead_accepts: "\<not> accepts dead_host url"
  by (simp add: accepts_def dead_host_def posix_host_def page_invalid)

theorem probe_exhausted_leaves_no_state_witness:
  "sanitizeSkillName dead_host ''demo'' = Some ''demo''
   \<and> \<not> exists_in (files \<lparr>files = None, trace = []\<rparr>) ''demo'' ''SKILL.md''
   \<and> installSkillFromGitHub dead_host ''o'' ''r'' ''demo'' False \<lparr>files = None, trace = []\<rparr> =
       (Inr \<lparr> success = False, skillName = ''demo'', installPath = None, sourceUrl = None,
              error = Some (not_found_error ''o'' ''r'' ''demo''), alreadyInstalled = None \<rparr>,
        \<lparr>files = None,
         trace = IoAccess ''demo'' ''SKILL.md'' # map IoFetch (getSkillMdUrls ''o'' ''r'' ''demo'')\<rparr>)"
proof -
  have e: "False \<or> \<not> exists_in (files \<lparr>files = None, trace = []\<rparr>) ''demo'' ''SKILL.md''"
    by (simp add: exists_in_def lookup_dir_def)
  have a: "\<forall>url\<in>set (getSkillMdUrls ''o'' ''r'' ''demo''). \<not> accepts dead_host url"
    by (simp add: dead_accepts)
  from probe_exhausted_leaves_no_state[OF dead_sanitize e a] dead_sanitize e a
  show ?thesis by simp
qed

subsection \<open>The names in the result\<close>

text \<open>
  C10. Every result that install returns carries the raw identifier in \<open>skillName\<close>. The
  field \<open>installPath\<close> is present exactly on success, and then it is the installation root
  joined with the sanitized identifier, which is the raw one with the characters outside
  the class removed.
\<close>

theorem result_carries_raw_name:
  assumes "installSkillFromGitHub h owner repo raw force w = (Inr res, w')"
  shows "skillName res = raw
       \<and> (\<forall>p. installPath res = Some p \<longrightarrow>
              sanitizeSkillName h raw = Some (strip_name raw)
            \<and> p = path_join h (SKILLS_DIR h) (strip_name raw))
       \<and> (installPath res \<noteq> None \<longleftrightarrow> success res)"
proof (cases "sanitizeSkillName h raw")
  case None
  with assms show ?thesis
    by (auto simp: installSkillFromGitHub_def)
next
  case (Some safe)
  then have "safe = strip_name raw"
    by (rule sanitize_Some)
  with Some assms show ?thesis
    by (auto simp: installSkillFromGitHub_def fs_access_def Let_def
        split: option.splits if_splits prod.splits sum.splits)
qed

theorem result_carries_raw_name_witness:
  "installSkillFromGitHub dead_host ''o'' ''r'' ''my skill'' False spaced_world =
     (Inr \<lparr> success = True, skillName = ''my skill'',
            installPath = Some ''/home/u/.openclaw/skills/myskill'',
            sourceUrl = None, error = None, alreadyInstalled = Some True \<rparr>,
      log_io (IoAccess ''myskill'' ''SKILL.md'') spaced_world)
   \<and> sanitizeSkillName dead_host ''my skill'' = Some (strip_name ''my skill'')
   \<and> strip_name ''my skill'' = ''myskill''
   \<and> ''/home/u/.openclaw/skills/myskill'' =
       path_join dead_host (SKILLS_DIR dead_host) (strip_name ''my skill'')"
proof -
  have s: "sanitizeSkillName dead_host ''my skill'' = Some ''myskill''"
    by (simp add: sanitizeSkillName_def strip_name_def allowed_char_def includes_str_def
        indexOf_def startsWith_def dead_host_def posix_host_def)
  have j: "path_join dead_host (SKILLS_DIR dead_host) ''myskill'' = ''/home/u/.openclaw/skills/myskill''"
    by (simp add: dead_host_def posix_host_def)
  have e: "installSkillFromGitHub dead_host ''o'' ''r'' ''my skill'' False spaced_world =
     (Inr \<lparr> success = True, skillName = ''my skill'',
            installPath = Some ''/home/u/.openclaw/skills/myskill'',
            sourceUrl = None, error = None, alreadyInstalled = Some True \<rparr>,
      log_io (IoAccess ''myskill'' ''SKILL.md'') spaced_world)"
    by (simp add: installSkillFromGitHub_def s j fs_access_def exists_in_def lookup_dir_def
        spaced_world_def)
  have c: "strip_name ''my skill'' = ''myskill''"
    by (simp add: strip_name_def allowed_char_def)
  from result_carries_raw_name[OF e] e c show ?thesis
    by simp
qed

subsection \<open>Registry: uninstall\<close>

lemma exists_in_entries:
  "exists_in (Some es) d f \<longleftrightarrow> (\<exists>items. map_of es d = Some (EntDir items) \<and> map_of items f \<noteq> None)"
  by (auto simp: exists_in_def lookup_dir_def split: option.splits entry.splits)

lemma uninstall_invalid:
  "sanitizeSkillName h raw = None \<Longrightarrow> uninstallSkill h raw w = (False, w)"
  by (simp add: uninstallSkill_def)

lemma uninstall_untracked:
  "sanitizeSkillName h raw = Some safe \<Longrightarrow> \<not> exists_in (files w) safe ''.vibeclaw.json'' \<Longrightarrow>
     uninstallSkill h raw w = (False, log_io (IoAccess safe ''.vibeclaw.json'') w)"
  by (simp add: uninstallSkill_def fs_access_def)

lemma uninstall_tracked:
  assumes "sanitizeSkillName h raw = Some safe" and "exists_in (files w) safe ''.vibeclaw.json''"
  shows "\<exists>es. files w = Some es
           \<and> uninstallSkill h raw w =
               (True, \<lparr>files = Some (AList.delete safe es),
                       trace = trace w @ [IoAccess safe ''.vibeclaw.json'', IoRm safe]\<rparr>)"
proof -
  from assms(2) obtain es where es: "files w = Some es"
    by (cases "files w") (auto simp: exists_in_def lookup_dir_def)
  with assms(2) obtain items where "map_of es safe = Some (EntDir items)"
    by (auto simp: exists_in_entries)
  with es assms show ?thesis
    by (simp add: uninstallSkill_def fs_access_def fs_rm_def rm_recursive_def log_io_def)
qed

text \<open>
  C8. Uninstall sanitizes the identifier. It returns true exactly when the identifier is
  valid and the Install Record exists in the sanitized directory; then the whole entry of
  that directory is removed from the root and every other entry stays. For an invalid
  identifier it returns false without any call; for a missing directory or a directory
  without a record it returns false after the existence test. In both cases the files are
  unchanged.
\<close>

theorem uninstall_exactly_tracked:
  "(sanitizeSkillName h raw = None \<longrightarrow> uninstallSkill h raw w = (False, w))
   \<and> (\<forall>safe. sanitizeSkillName h raw = Some safe
              \<and> \<not> exists_in (files w) safe ''.vibeclaw.json''
        \<longrightarrow> uninstallSkill h raw w = (False, w\<lparr>trace := trace w @ [IoAccess safe ''.vibeclaw.json'']\<rparr>))
   \<and> (\<forall>safe. sanitizeSkillName h raw = Some safe
              \<and> exists_in (files w) safe ''.vibeclaw.json''
        \<longrightarrow> (\<exists>es. files w = Some es
              \<and> uninstallSkill h raw w =
                  (True, \<lparr>files = Some (AList.delete safe es),
                          trace = trace w @ [IoAccess safe ''.vibeclaw.json'', IoRm safe]\<rparr>)
              \<and> map_of (AList.delete safe es) = (map_of es)(safe := None)))
   \<and> (fst (uninstallSkill h raw w) \<longleftrightarrow>
        (\<exists>safe. sanitizeSkillName h raw = Some safe \<and> exists_in (files w) safe ''.vibeclaw.json''))
   \<and> (\<not> fst (uninstallSkill h raw w) \<longrightarrow> files (snd (uninstallSkill h raw w)) = files w)"
proof (intro conjI allI impI)
  show "uninstallSkill h raw w = (False, w)" if "sanitizeSkillName h raw = None"
    using that by (rule uninstall_invalid)
  show "uninstallSkill h raw w = (False, w\<lparr>trace := trace w @ [IoAccess safe ''.vibeclaw.json'']\<rparr>)"
    if "sanitizeSkillName h raw = Some safe \<and> \<not> exists_in (files w) safe ''.vibeclaw.json''" for safe
    using that uninstall_untracked[of h raw safe w] by (simp add: log_io_def)
  show "\<exists>es. files w = Some es
              \<and> uninstallSkill h raw w =
                  (True, \<lparr>files = Some (AList.delete safe es),
                          trace = trace w @ [IoAccess safe ''.vibeclaw.json'', IoRm safe]\<rparr>)
              \<and> map_of (AList.delete safe es) = (map_of es)(safe := None)"
    if "sanitizeSkillName h raw = Some safe \<and> exists_in (files w) safe ''.vibeclaw.json''" for safe
    using that uninstall_tracked[of h raw safe w] by (auto simp: delete_conv')
  show "fst (uninstallSkill h raw w) \<longleftrightarrow>
        (\<exists>safe. sanitizeSkillName h raw = Some safe \<and> exists_in (files w) safe ''.vibeclaw.json'')"
  proof (cases "sanitizeSkillName h raw")
    case None
    then show ?thesis by (simp add: uninstall_invalid)
  next
    case (Some safe)
    then show ?thesis
      using uninstall_untracked[of h raw safe w] uninstall_tracked[of h raw safe w]
      by (cases "exists_in (files w) safe ''.vibeclaw.json''") auto
  qed
  show "files (snd (uninstallSkill h raw w)) = files w" if "\<not> fst (uninstallSkill h raw w)"
  proof (cases "sanitizeSkillName h raw")
    case None
    then show ?thesis by (simp add: uninstall_invalid)
  next
    case (Some safe)
    then show ?thesis
      using that uninstall_untracked[of h raw safe w] uninstall_tracked[of h raw safe w]
      by (cases "exists_in (files w) safe ''.vibeclaw.json''") (auto simp: log_io_def)
  qed
qed

theorem uninstall_exactly_tracked_witness:
  "uninstallSkill demo_host ''demo'' demo_after =
     (True, \<lparr>files = Some [],
             trace = trace demo_after @ [IoAccess ''demo'' ''.vibeclaw.json'', IoRm ''demo'']\<rparr>)
   \<and> uninstallSkill dead_host ''my skill'' spaced_world =
       (False, spaced_world\<lparr>trace := trace spaced_world @ [IoAccess ''myskill'' ''.vibeclaw.json'']\<rparr>)
   \<and> uninstallSkill dead_host ''../demo'' spaced_world = (False, spaced_world)"
proof -
  have t: "exists_in (files demo_after) ''demo'' ''.vibeclaw.json''"
    by (simp add: demo_after_def demo_installed_def exists_in_def lookup_dir_def)
  have f: "files demo_after = Some [(''demo'', EntDir [(''SKILL.md'', ItemFile (Text sample_skill_md)),
                              (''.vibeclaw.json'', ItemFile (MetaJson demo_record))])]"
    by (simp add: demo_after_def demo_installed_def)
  from uninstall_exactly_tracked[of demo_host "''demo''" demo_after] demo_sanitize t
  obtain es where "files demo_after = Some es"
    "uninstallSkill demo_host ''demo'' demo_after =
       (True, \<lparr>files = Some (AList.delete ''demo'' es),
               trace = trace demo_after @ [IoAccess ''demo'' ''.vibeclaw.json'', IoRm ''demo'']\<rparr>)"
    by blast
  with f have a: "uninstallSkill demo_host ''demo'' demo_after =
     (True, \<lparr>files = Some [],
             trace = trace demo_after @ [IoAccess ''demo'' ''.vibeclaw.json'', IoRm ''demo'']\<rparr>)"
    by (simp add: AList.delete_eq)
  have s: "sanitizeSkillName dead_host ''my skill'' = Some ''myskill''"
    by (simp add: sanitizeSkillName_def strip_name_def allowed_char_def includes_str_def
        indexOf_def startsWith_def dead_host_def posix_host_def)
  have u: "\<not> exists_in (files spaced_world) ''myskill'' ''.vibeclaw.json''"
    by (simp add: spaced_world_def exists_in_def lookup_dir_def)
  from uninstall_exactly_tracked[of dead_host "''my skill''" spaced_world] s u
  have b: "uninstallSkill dead_host ''my skill'' spaced_world =
       (False, spaced_world\<lparr>trace := trace spaced_world @ [IoAccess ''myskill'' ''.vibeclaw.json'']\<rparr>)"
    by blast
  have n: "sanitizeSkillName dead_host ''../demo'' = None"
    by (simp add: sanitizeSkillName_def strip_name_def allowed_char_def includes_str_def
        indexOf_def startsWith_def dead_host_def posix_host_def)
  from uninstall_exactly_tracked[of dead_host "''../demo''" spaced_world] n
  have c: "uninstallSkill dead_host ''../demo'' spaced_world = (False, spaced_world)"
    by blast
  from a b c show ?thesis by blast
qed

subsection \<open>Registry: list\<close>

lemma list_loop_result:
  "list_loop (map (\<lambda>(n, e). (n, isDirectory e)) es) installed w =
     (installed @ map fst (filter (\<lambda>(n, e). isDirectory e \<and> exists_in (files w) n ''.vibeclaw.json'') es),
      w\<lparr>trace := trace w @ map (\<lambda>(n, e). IoAccess n ''.vibeclaw.json'')
                              (filter (\<lambda>(n, e). isDirectory e) es)\<rparr>)"
proof (induction es arbitrary: installed w)
  case Nil
  then show ?case by simp
next
  case (Cons x es)
  obtain n e where x: "x = (n, e)" by (cases x)
  show ?case
    unfolding x using Cons.IH
    by (simp add: fs_access_def log_io_def)
qed

lemma tracked_entries:
  "set (map fst (filter (\<lambda>(n, e). isDirectory e \<and> exists_in (Some es) n ''.vibeclaw.json'') es)) =
     {n. exists_in (Some es) n ''.vibeclaw.json''}"
proof (intro set_eqI iffI)
  fix n
  assume "n \<in> set (map fst (filter (\<lambda>(n, e). isDirectory e \<and> exists_in (Some es) n ''.vibeclaw.json'') es))"
  then show "n \<in> {n. exists_in (Some es) n ''.vibeclaw.json''}"
    by auto
next
  fix n
  assume "n \<in> {n. exists_in (Some es) n ''.vibeclaw.json''}"
  then have ex: "exists_in (Some es) n ''.vibeclaw.json''" by simp
  then obtain items where "map_of es n = Some (EntDir items)"
    by (auto simp: exists_in_entries)
  then have "(n, EntDir items) \<in> set es"
    by (rule map_of_SomeD)
  with ex show "n \<in> set (map fst (filter (\<lambda>(n, e). isDirectory e \<and> exists_in (Some es) n ''.vibeclaw.json'') es))"
    by force
qed

text \<open>
  C9. The list returned by \<open>listInstalledSkills\<close> holds, in directory order, the names of
  the directory entries of the root whose Install Record exists; as a set these are exactly
  the names under which a record exists. Every other entry is skipped, a missing root gives
  the empty list, no error is returned and the files are unchanged. After two installs and
  a third directory put there without a record, the list is the two installed names.
\<close>

theorem list_exactly_tracked:
  "fst (listInstalledSkills w) =
     (case files w of
        None \<Rightarrow> []
      | Some es \<Rightarrow>
          map fst (filter (\<lambda>(n, e). isDirectory e \<and> exists_in (files w) n ''.vibeclaw.json'') es))
   \<and> set (fst (listInstalledSkills w)) = {n. exists_in (files w) n ''.vibeclaw.json''}
   \<and> files (snd (listInstalledSkills w)) = files w"
proof (cases "files w")
  case None
  then show ?thesis
    by (simp add: listInstalledSkills_def fs_readdir_def readdir_def log_io_def exists_in_def
        lookup_dir_def)
next
  case (Some es)
  have run: "listInstalledSkills w =
      list_loop (map (\<lambda>(n, e). (n, isDirectory e)) es) [] (log_io IoReaddir w)"
    using Some by (simp add: listInstalledSkills_def fs_readdir_def readdir_def)
  have fl: "files (log_io IoReaddir w) = Some es"
    using Some by (simp add: log_io_def)
  show ?thesis
    unfolding run list_loop_result
    using Some fl tracked_entries[of es] by simp
qed

lemma open_sanitize:
  "sanitizeSkillName open_host ''alpha'' = Some ''alpha''"
  "sanitizeSkillName open_host ''beta'' = Some ''beta''"
  by (simp_all add: sanitizeSkillName_def strip_name_def allowed_char_def includes_str_def
      indexOf_def startsWith_def open_host_def posix_host_def)

lemma open_download:
  "downloadSkillMd open_host owner repo raw w =
     (Some (sample_skill_md, hd (getSkillMdUrls owner repo raw)),
      log_io (IoFetch (hd (getSkillMdUrls owner repo raw))) w)"
  by (simp add: downloadSkillMd_def getSkillMdUrls_def open_host_def posix_host_def sample_valid Let_def)

lemma two_installed_files:
  "files two_installed =
     Some [ (''alpha'', EntDir [(''SKILL.md'', ItemFile (Text sample_skill_md)),
              (''.vibeclaw.json'', ItemFile (MetaJson
                 (install_meta open_host ''o'' ''r'' ''alpha'' (hd (getSkillMdUrls ''o'' ''r'' ''alpha'')))))]),
            (''beta'', EntDir [(''SKILL.md'', ItemFile (Text sample_skill_md)),
              (''.vibeclaw.json'', ItemFile (MetaJson
                 (install_meta open_host ''o'' ''r'' ''beta'' (hd (getSkillMdUrls ''o'' ''r'' ''beta'')))))]) ]"
  by (simp add: two_installed_def installSkillFromGitHub_def open_sanitize open_download
      fs_access_def exists_in_def lookup_dir_def log_io_def install_writes_def
      fs_mkdir_def mkdir_p_def fs_writeFile_def write_file_def)

theorem list_exactly_tracked_witness:
  "fst (listInstalledSkills with_stray) = [''alpha'', ''beta'']
   \<and> exists_in (files with_stray) ''gamma'' ''SKILL.md''
   \<and> {n. exists_in (files with_stray) n ''.vibeclaw.json''} = {''alpha'', ''beta''}"
proof -
  have f: "files with_stray =
     Some [ (''alpha'', EntDir [(''SKILL.md'', ItemFile (Text sample_skill_md)),
              (''.vibeclaw.json'', ItemFile (MetaJson
                 (install_meta open_host ''o'' ''r'' ''alpha'' (hd (getSkillMdUrls ''o'' ''r'' ''alpha'')))))]),
            (''beta'', EntDir [(''SKILL.md'', ItemFile (Text sample_skill_md)),
              (''.vibeclaw.json'', ItemFile (MetaJson
                 (install_meta open_host ''o'' ''r'' ''beta'' (hd (getSkillMdUrls ''o'' ''r'' ''beta'')))))]),
            (''gamma'', EntDir [(''SKILL.md'', ItemFile (Text ''# by hand''))]) ]"
    by (simp add: with_stray_def two_installed_files)
  note t = list_exactly_tracked[of with_stray]
  have l: "fst (listInstalledSkills with_stray) = [''alpha'', ''beta'']"
    using t by (simp add: f exists_in_def lookup_dir_def)
  have g: "exists_in (files with_stray) ''gamma'' ''SKILL.md''"
    by (simp add: f exists_in_def lookup_dir_def)
  from t l have "{n. exists_in (files with_stray) n ''.vibeclaw.json''} = {''alpha'', ''beta''}"
    by auto
  with l g show ?thesis by blast
qed

end
